theory Spec2Isabelle
  imports Complex_Main
begin

section \<open>Python values shared by the two readers\<close>

text \<open>
  An f-string of the source is kept as the sequence of its parts: the literal text and the
  interpolated values, in order. \<open>Interp v\<close> is a formatted value \<open>{v}\<close>,
  \<open>Interp_str s\<close> an interpolated string such as the archive path, \<open>Interp_count n\<close> an
  interpolated count. An error message carries a value when the value is one of its parts.
\<close>

datatype 'v piece = Lit string | Interp 'v | Interp_str string | Interp_count nat

text \<open>
  The exceptions the two modules can raise. The first three are of Python's class
  \<open>ValueError\<close>; \<open>InvalidOperation\<close> is \<open>decimal.InvalidOperation\<close>, a subclass of
  \<open>ArithmeticError\<close> and not of \<open>ValueError\<close>. \<open>DecodeError\<close> stands for whatever an
  external image decoder raises (\<open>cv2.error\<close>, or the exception of \<open>simplejpeg\<close>).
\<close>

datatype 'v error =
    ValueError "'v piece list"
  | ValueError_invalid_angle "string list"
  | ValueError_empty_separator
  | RuntimeError "'v piece list"
  | TypeError_missing_argument string
  | IndexError
  | KeyError string
  | InvalidOperation
  | DecodeError

fun is_ValueError :: "'v error \<Rightarrow> bool" where
  "is_ValueError (ValueError _) = True"
| "is_ValueError (ValueError_invalid_angle _) = True"
| "is_ValueError ValueError_empty_separator = True"
| "is_ValueError _ = False"

definition bnd :: "'e + 'a \<Rightarrow> ('a \<Rightarrow> 'e + 'b) \<Rightarrow> 'e + 'b" where
  "bnd m f = (case m of Inl e \<Rightarrow> Inl e | Inr x \<Rightarrow> f x)"

section \<open>Strings: \<open>endswith\<close>, \<open>split\<close>, \<open>strip\<close>\<close>

definition endswith :: "string \<Rightarrow> string \<Rightarrow> bool" where
  "endswith s suffix =
     (length suffix \<le> length s \<and> drop (length s - length suffix) s = suffix)"

definition startswith :: "string \<Rightarrow> string \<Rightarrow> bool" where
  "startswith s p = (take (length p) s = p)"

text \<open>
  \<open>s.split(sep)\<close> for a non-empty separator: scan from the left, cut at every occurrence of
  \<open>sep\<close> that does not overlap the previous one. \<open>acc\<close> is the current field, reversed.
\<close>

fun split_on :: "string \<Rightarrow> string \<Rightarrow> string \<Rightarrow> string list" where
  "split_on sep acc [] = [rev acc]"
| "split_on sep acc (c # cs) =
     (if sep \<noteq> [] \<and> startswith (c # cs) sep
      then rev acc # split_on sep [] (drop (length sep - 1) cs)
      else split_on sep (c # acc) cs)"

text \<open>\<open>str.split\<close> raises \<open>ValueError('empty separator')\<close> on the empty separator.\<close>

definition py_split :: "string \<Rightarrow> string \<Rightarrow> 'v error + string list" where
  "py_split s sep = (if sep = [] then Inl ValueError_empty_separator else Inr (split_on sep [] s))"

text \<open>
  A character is read as a code point below 256; these are the code points below 256 that
  \<open>str.strip\<close> removes.
\<close>

definition is_space :: "char \<Rightarrow> bool" where
  "is_space c = ((of_char c :: nat) \<in> {9, 10, 11, 12, 13, 28, 29, 30, 31, 32, 133, 160})"

definition strip :: "string \<Rightarrow> string" where
  "strip s = rev (dropWhile is_space (rev (dropWhile is_space s)))"

definition is_digit :: "char \<Rightarrow> bool" where
  "is_digit c = (c \<in> set ''0123456789'')"

definition digit_val :: "char \<Rightarrow> int" where
  "digit_val c = of_char c - 48"

definition int_of_digits :: "string \<Rightarrow> int" where
  "int_of_digits ds = foldl (\<lambda>a c. 10 * a + digit_val c) 0 ds"

definition to_lower :: "char \<Rightarrow> char" where
  "to_lower c = (if c \<in> set ''ABCDEFGHIJKLMNOPQRSTUVWXYZ'' then char_of (of_char c + (32::nat)) else c)"

section \<open>\<open>decimal.Decimal\<close>\<close>

text \<open>
  A \<open>Decimal\<close> is a signed coefficient with an exponent (\<open>Finite m e\<close> is \<open>m * 10^e\<close>), an
  infinity (\<open>True\<close> for the negative one), a quiet or a signalling NaN. The sign of a zero and
  the payload of a NaN are left out: neither equality nor hashing nor \<open>quantize\<close> reads them.
  The context is the default one: precision 28, \<open>ROUND_HALF_EVEN\<close>, \<open>Emax = 999999\<close>,
  \<open>Emin = -999999\<close>, \<open>InvalidOperation\<close> trapped.
\<close>

datatype decimal = Finite int int | Infinity bool | NaN | sNaN

definition prec :: int where "prec = 28"
definition Emax :: int where "Emax = 999999"
definition Emin :: int where "Emin = - 999999"
definition Etiny :: int where "Etiny = Emin - prec + 1"

subsection \<open>The constructor on strings\<close>

text \<open>
  \<open>Decimal(s)\<close> strips white space, removes underscores and matches the whole rest against
  \<^verbatim>\<open>[-+]? ( (?=\d|\.\d) \d* (\.\d*)? (E[-+]?\d+)? | Inf(inity)? | s?NaN\d* )\<close>,
  ignoring case; a string that does not match raises \<open>InvalidOperation\<close>. The exponent is an
  unbounded integer here (the C implementation also rejects exponents beyond 10^18).
\<close>

definition split_sign :: "string \<Rightarrow> bool \<times> string" where
  "split_sign s =
     (case s of
        [] \<Rightarrow> (False, [])
      | c # r \<Rightarrow> if c = CHR ''-'' then (True, r) else if c = CHR ''+'' then (False, r) else (False, s))"

definition parse_exponent :: "string \<Rightarrow> int option" where
  "parse_exponent s =
     (case split_sign s of (neg, ds) \<Rightarrow>
        if ds \<noteq> [] \<and> list_all is_digit ds
        then Some ((if neg then - 1 else 1) * int_of_digits ds)
        else None)"

definition parse_number :: "string \<Rightarrow> (int \<times> int) option" where
  "parse_number s =
     (let intpart = takeWhile is_digit s;
          r1 = dropWhile is_digit s;
          fracpart = (case r1 of c # r \<Rightarrow> if c = CHR ''.'' then takeWhile is_digit r else [] | [] \<Rightarrow> []);
          r2 = (case r1 of c # r \<Rightarrow> if c = CHR ''.'' then dropWhile is_digit r else r1 | [] \<Rightarrow> [])
      in if intpart = [] \<and> fracpart = [] then None
         else (case r2 of
                 [] \<Rightarrow> Some (int_of_digits (intpart @ fracpart), - int (length fracpart))
               | c # r \<Rightarrow>
                   if to_lower c = CHR ''e''
                   then (case parse_exponent r of
                           None \<Rightarrow> None
                         | Some e \<Rightarrow> Some (int_of_digits (intpart @ fracpart), e - int (length fracpart)))
                   else None))"

definition Decimal_of_str :: "string \<Rightarrow> 'v error + decimal" where
  "Decimal_of_str s =
     (case split_sign (filter (\<lambda>c. c \<noteq> CHR ''_'') (strip s)) of (neg, body) \<Rightarrow>
        let low = map to_lower body in
        if low = ''inf'' \<or> low = ''infinity'' then Inr (Infinity neg)
        else if take 3 low = ''nan'' \<and> list_all is_digit (drop 3 low) then Inr NaN
        else if take 4 low = ''snan'' \<and> list_all is_digit (drop 4 low) then Inr sNaN
        else (case parse_number body of
                None \<Rightarrow> Inl InvalidOperation
              | Some (c, e) \<Rightarrow> Inr (Finite ((if neg then - 1 else 1) * c) e)))"

subsection \<open>\<open>quantize\<close>\<close>

text \<open>The number of decimal digits of a coefficient, \<open>len(self._int)\<close>.\<close>

function ndigits :: "int \<Rightarrow> int" where
  "ndigits n = (if n < 10 then 1 else 1 + ndigits (n div 10))"
  by pat_completeness auto
termination
  by (relation "measure nat") auto

declare ndigits.simps [simp del]

definition adjusted :: "int \<Rightarrow> int \<Rightarrow> int" where
  "adjusted m e = e + ndigits \<bar>m\<bar> - 1"

text \<open>\<open>ROUND_HALF_EVEN\<close> of \<open>c / d\<close>.\<close>

definition round_half_even :: "int \<Rightarrow> int \<Rightarrow> int" where
  "round_half_even c d =
     (let q = c div d; r = c mod d
      in if 2 * r > d \<or> (2 * r = d \<and> odd q) then q + 1 else q)"

text \<open>\<open>_rescale\<close>: the coefficient of \<open>c * 10^e\<close> at exponent \<open>ex\<close>.\<close>

definition rescale :: "int \<Rightarrow> int \<Rightarrow> int \<Rightarrow> int" where
  "rescale c e ex =
     (if e \<ge> ex then c * 10 ^ nat (e - ex) else round_half_even c (10 ^ nat (ex - e)))"

text \<open>
  \<open>self.quantize(exp)\<close>, in the order of the checks of the library. The final \<open>_fix\<close> of the
  library changes nothing when the result is within the precision and the exponent range,
  which the checks before it have established.
\<close>

fun quantize :: "decimal \<Rightarrow> decimal \<Rightarrow> 'v error + decimal" where
  "quantize sNaN _ = Inl InvalidOperation"
| "quantize _ sNaN = Inl InvalidOperation"
| "quantize NaN _ = Inr NaN"
| "quantize _ NaN = Inr NaN"
| "quantize (Infinity s) (Infinity _) = Inr (Infinity s)"
| "quantize (Infinity _) _ = Inl InvalidOperation"
| "quantize _ (Infinity _) = Inl InvalidOperation"
| "quantize (Finite m e) (Finite _ ex) =
     (if \<not> (Etiny \<le> ex \<and> ex \<le> Emax) then Inl InvalidOperation
      else if m = 0 then Inr (Finite 0 ex)
      else if adjusted m e > Emax then Inl InvalidOperation
      else if adjusted m e - ex + 1 > prec then Inl InvalidOperation
      else let c = rescale \<bar>m\<bar> e ex in
        if adjusted c ex > Emax then Inl InvalidOperation
        else if ndigits c > prec then Inl InvalidOperation
        else Inr (Finite (sgn m * c) ex))"

subsection \<open>Equality of decimals and of angle tuples\<close>

text \<open>
  \<open>==\<close> on \<open>Decimal\<close> compares the numbers, not the representations, and a NaN equals
  nothing, itself included. A dictionary finds a key by \<open>==\<close> (after the hash, which equal
  decimals share); the keys it meets here are freshly made objects, so no key is found by
  identity.
\<close>

fun dec_eq :: "decimal \<Rightarrow> decimal \<Rightarrow> bool" where
  "dec_eq (Finite m e) (Finite m' e') =
     (m * 10 ^ nat (e - min e e') = m' * 10 ^ nat (e' - min e e'))"
| "dec_eq (Infinity s) (Infinity s') = (s = s')"
| "dec_eq _ _ = False"

type_synonym key = "decimal \<times> decimal \<times> decimal \<times> decimal"

fun key_eq :: "key \<Rightarrow> key \<Rightarrow> bool" where
  "key_eq (a, b, c, d) (a', b', c', d') = (dec_eq a a' \<and> dec_eq b b' \<and> dec_eq c c' \<and> dec_eq d d')"

text \<open>
  A \<open>dict\<close> keyed by angle tuples, in insertion order. Storing under a key that equals a
  stored key replaces the value and keeps the stored key, as Python does.
\<close>

fun dict_get :: "(key \<times> 'p) list \<Rightarrow> key \<Rightarrow> 'p option" where
  "dict_get [] k = None"
| "dict_get ((k', v) # d) k = (if key_eq k' k then Some v else dict_get d k)"

fun dict_set :: "(key \<times> 'p) list \<Rightarrow> key \<Rightarrow> 'p \<Rightarrow> (key \<times> 'p) list" where
  "dict_set [] k v = [(k, v)]"
| "dict_set ((k', v') # d) k v = (if key_eq k' k then (k', v) # d else (k', v') # dict_set d k v)"

section \<open>The filename reader: \<open>btf_helper/btfzip.py\<close>\<close>

definition DECIMAL_PRECISION :: decimal where
  "DECIMAL_PRECISION = Finite 1 (- 3)"

subsection \<open>\<open>Btfzip._filename_to_angles\<close>\<close>

text \<open>\<open>Decimal(angles[i][2:]).quantize(self.DECIMAL_PRECISION)\<close>; \<open>angles[i]\<close> raises
  \<open>IndexError\<close> when the split gave fewer fields.\<close>

definition angle_field :: "string list \<Rightarrow> nat \<Rightarrow> 'v error + decimal" where
  "angle_field angles i =
     (if i < length angles
      then bnd (Decimal_of_str (drop 2 (angles ! i))) (\<lambda>d. quantize d DECIMAL_PRECISION)
      else Inl IndexError)"

text \<open>\<open>try: ... except ValueError as e: raise ValueError("invalid angle:", angles) from e\<close>:
  only an exception of class \<open>ValueError\<close> is replaced, any other one passes.\<close>

definition except_ValueError :: "string list \<Rightarrow> 'v error + 'a \<Rightarrow> 'v error + 'a" where
  "except_ValueError angles body =
     (case body of
        Inl e \<Rightarrow> if is_ValueError e then Inl (ValueError_invalid_angle angles) else Inl e
      | Inr x \<Rightarrow> Inr x)"

text \<open>
  The method has two required parameters, \<open>filename\<close> and \<open>sep\<close>. The second argument of
  the model is what the caller passes for \<open>sep\<close>: \<open>None\<close> is a call that passes nothing, which
  Python answers with a \<open>TypeError\<close> before the body runs.
\<close>

definition filename_to_angles :: "string \<Rightarrow> string option \<Rightarrow> 'v error + key" where
  "filename_to_angles filename sep_arg =
     (case sep_arg of
        None \<Rightarrow> Inl (TypeError_missing_argument ''sep'')
      | Some sep \<Rightarrow>
          (let base = last (split_on ''/'' [] filename) in
           bnd (py_split (take (length base - 4) base) sep) (\<lambda>angles.
             except_ValueError angles
               (bnd (angle_field angles 0) (\<lambda>tl.
                bnd (angle_field angles 1) (\<lambda>pl.
                bnd (angle_field angles 2) (\<lambda>tv.
                bnd (angle_field angles 3) (\<lambda>pv.
                Inr (tl, pl, tv, pv)))))))))"

subsection \<open>\<open>Btfzip.__init__\<close>\<close>

datatype decoder = Simplejpeg | Cv2

text \<open>The archive is the list of its entries, name and content, in the order of
  \<open>namelist()\<close>; \<open>'b\<close> is the type of a file's content.\<close>

record 'b btfzip =
  zip_filepath :: string
  zip_archive :: "(string \<times> 'b) list"
  angles_vs_filepath_dict :: "(key \<times> string) list"
  zip_angles_set :: "key list"
  angles_to_image_method :: decoder

definition filepath_set :: "string list \<Rightarrow> string \<Rightarrow> string set" where
  "filepath_set namelist file_ext = set (filter (\<lambda>path. endswith path file_ext) namelist)"

text \<open>
  The source iterates over the set \<open>filepath_set\<close> twice; Python fixes no order for that.
  \<open>iterates paths S\<close> says that \<open>paths\<close> is one of the orders in which \<open>S\<close> can be run
  through, and the constructor below takes that order as a parameter.
\<close>

definition iterates :: "string list \<Rightarrow> string set \<Rightarrow> bool" where
  "iterates paths S = (distinct paths \<and> set paths = S)"

text \<open>\<open>{self._filename_to_angles(path, angle_sep): path for path in filepath_set}\<close>\<close>

fun dict_comprehension ::
  "string list \<Rightarrow> string \<Rightarrow> (key \<times> string) list \<Rightarrow> key error + (key \<times> string) list" where
  "dict_comprehension [] sep d = Inr d"
| "dict_comprehension (path # paths) sep d =
     bnd (filename_to_angles path (Some sep)) (\<lambda>k. dict_comprehension paths sep (dict_set d k path))"

text \<open>\<open>[self._filename_to_angles(path) for path in filepath_set]\<close>: the call passes no
  \<open>sep\<close>.\<close>

fun list_comprehension :: "string list \<Rightarrow> key error + key list" where
  "list_comprehension [] = Inr []"
| "list_comprehension (path # paths) =
     bnd (filename_to_angles path None) (\<lambda>k.
     bnd (list_comprehension paths) (\<lambda>ks. Inr (k # ks)))"

text \<open>\<open>Counter(angles_list).items()\<close>: each distinct tuple with its count, in the order of
  first occurrence.\<close>

fun counter_add :: "(key \<times> nat) list \<Rightarrow> key \<Rightarrow> (key \<times> nat) list" where
  "counter_add [] k = [(k, 1)]"
| "counter_add ((k', n) # c) k = (if key_eq k' k then (k', n + 1) # c else (k', n) # counter_add c k)"

definition Counter :: "key list \<Rightarrow> (key \<times> nat) list" where
  "Counter ks = foldl counter_add [] ks"

text \<open>The lines the loop over the counter prints to \<open>stderr\<close>.\<close>

definition diagnostics :: "string \<Rightarrow> (key \<times> nat) list \<Rightarrow> key piece list list" where
  "diagnostics path items =
     map (\<lambda>(angles, counter).
            [Lit (''[BTF-Helper] '' @ [CHR 0x27]), Interp_str path, Lit (CHR 0x27 # '' has''),
             Interp_count counter,
             Lit '' files with condition '', Interp angles, Lit ''.''])
         (filter (\<lambda>(angles, counter). counter > 1) items)"

text \<open>
  The constructor, from the opened archive on. The result is the lines written to \<open>stderr\<close>
  and either the exception raised or the reader.
\<close>

definition Btfzip_init ::
  "string \<Rightarrow> (string \<times> 'b) list \<Rightarrow> string list \<Rightarrow> string \<Rightarrow> string
     \<Rightarrow> key piece list list \<times> (key error + 'b btfzip)" where
  "Btfzip_init path archive paths file_ext angle_sep =
     (case dict_comprehension paths angle_sep [] of
        Inl e \<Rightarrow> ([], Inl e)
      | Inr d \<Rightarrow>
          if length paths \<noteq> length (map fst d)
          then (case list_comprehension paths of
                  Inl e \<Rightarrow> ([], Inl e)
                | Inr angles_list \<Rightarrow>
                    (diagnostics path (Counter angles_list),
                     Inl (RuntimeError [Lit [CHR 0x27], Interp_str path,
                                        Lit (CHR 0x27 # '' has duplicated conditions.'')])))
          else ([], Inr \<lparr> zip_filepath = path,
                          zip_archive = archive,
                          angles_vs_filepath_dict = d,
                          zip_angles_set = map fst d,
                          angles_to_image_method =
                            (if file_ext = ''.jpg'' \<or> file_ext = ''.jpeg'' then Simplejpeg else Cv2) \<rparr>))"

subsection \<open>The two lookups\<close>

text \<open>
  The four arguments \<open>a_tl\<close>, ..., \<open>a_pv\<close> are the decimals \<open>Decimal(tl)\<close>, ...,
  \<open>Decimal(pv)\<close>: the
  constructor converts a \<open>float\<close>, an \<open>int\<close> or a \<open>Decimal\<close> without rounding (a float NaN to
  \<open>NaN\<close>, a float infinity to an infinity).
\<close>

definition lookup_key :: "decimal \<Rightarrow> decimal \<Rightarrow> decimal \<Rightarrow> decimal \<Rightarrow> 'v error + key" where
  "lookup_key a_tl a_pl a_tv a_pv =
     bnd (quantize a_tl DECIMAL_PRECISION) (\<lambda>a.
     bnd (quantize a_pl DECIMAL_PRECISION) (\<lambda>b.
     bnd (quantize a_tv DECIMAL_PRECISION) (\<lambda>c.
     bnd (quantize a_pv DECIMAL_PRECISION) (\<lambda>d. Inr (a, b, c, d)))))"

definition not_found :: "key \<Rightarrow> string \<Rightarrow> key error" where
  "not_found k path =
     ValueError [Lit ''Condition '', Interp k, Lit ('' does not exist in '' @ [CHR 0x27]),
                 Interp_str path, Lit (CHR 0x27 # ''.'')]"

text \<open>\<open>self.__z.open(filepath).read()\<close>: of several entries of one name the archive opens the
  last; a name that is not in the archive is a \<open>KeyError\<close>.\<close>

definition zip_read :: "(string \<times> 'b) list \<Rightarrow> string \<Rightarrow> 'v error + 'b" where
  "zip_read archive name =
     (case map_of (rev archive) name of None \<Rightarrow> Inl (KeyError name) | Some data \<Rightarrow> Inr data)"

text \<open>
  The decoders are outside the repository and are parameters. \<open>cv2.imdecode\<close> has three
  outcomes: it raises \<open>cv2.error\<close> (on an empty buffer), it returns \<open>None\<close> for data it
  cannot decode, or it returns the array. \<open>simplejpeg.decode_jpeg\<close> returns the array or
  raises; \<open>None\<close> of the parameter \<open>decode_jpeg\<close> stands for the latter.
  \<open>if not filepath\<close> is true for \<open>None\<close> and for the empty string.
\<close>

datatype 'img cv2_result = Cv2_error | Cv2_None | Cv2_image 'img

definition angles_to_image_cv2 ::
  "('b \<Rightarrow> 'img cv2_result) \<Rightarrow> 'b btfzip \<Rightarrow> decimal \<Rightarrow> decimal \<Rightarrow> decimal \<Rightarrow> decimal
     \<Rightarrow> key error + 'img option" where
  "angles_to_image_cv2 imdecode self a_tl a_pl a_tv a_pv =
     bnd (lookup_key a_tl a_pl a_tv a_pv) (\<lambda>k.
       let filepath = dict_get (angles_vs_filepath_dict self) k in
       if filepath = None \<or> filepath = Some [] then Inl (not_found k (zip_filepath self))
       else bnd (zip_read (zip_archive self) (the filepath)) (\<lambda>data.
              case imdecode data of
                Cv2_error \<Rightarrow> Inl DecodeError
              | Cv2_None \<Rightarrow> Inr None
              | Cv2_image img \<Rightarrow> Inr (Some img)))"

definition angles_to_image_simplejpeg ::
  "('b \<Rightarrow> 'img option) \<Rightarrow> 'b btfzip \<Rightarrow> decimal \<Rightarrow> decimal \<Rightarrow> decimal \<Rightarrow> decimal
     \<Rightarrow> key error + 'img option" where
  "angles_to_image_simplejpeg decode_jpeg self a_tl a_pl a_tv a_pv =
     bnd (lookup_key a_tl a_pl a_tv a_pv) (\<lambda>k.
       let filepath = dict_get (angles_vs_filepath_dict self) k in
       if filepath = None \<or> filepath = Some [] then Inl (not_found k (zip_filepath self))
       else bnd (zip_read (zip_archive self) (the filepath)) (\<lambda>data.
              case decode_jpeg data of None \<Rightarrow> Inl DecodeError | Some img \<Rightarrow> Inr (Some img)))"

text \<open>\<open>self.angles_to_image\<close>, as bound by the constructor.\<close>

definition zip_angles_to_image ::
  "('b \<Rightarrow> 'img cv2_result) \<Rightarrow> ('b \<Rightarrow> 'img option) \<Rightarrow> 'b btfzip
     \<Rightarrow> decimal \<Rightarrow> decimal \<Rightarrow> decimal \<Rightarrow> decimal \<Rightarrow> key error + 'img option" where
  "zip_angles_to_image imdecode decode_jpeg self a_tl a_pl a_tv a_pv =
     (case angles_to_image_method self of
        Simplejpeg \<Rightarrow> angles_to_image_simplejpeg decode_jpeg self a_tl a_pl a_tv a_pv
      | Cv2 \<Rightarrow> angles_to_image_cv2 imdecode self a_tl a_pl a_tv a_pv)"

section \<open>The packed reader: \<open>btf_helper/btfnpz.py\<close> and \<open>btfnpz-helper/btfnpz.py\<close>\<close>

subsection \<open>Arrays\<close>

text \<open>
  A numpy array of at least one dimension is the list of its entries along the first axis,
  the shape every entry has, and the flag \<open>flags.writeable\<close>. Indexing by a position
  gives a view of that entry, which inherits the flag; an index out of range raises
  \<open>IndexError\<close>; assigning through an array whose flag is off raises \<open>ValueError\<close>.
\<close>

record 'e ndarray =
  items :: "'e list"
  item_shape :: "nat list"
  writeable :: bool

definition shape :: "'e ndarray \<Rightarrow> nat list" where
  "shape a = length (items a) # item_shape a"

record 'e view =
  view_data :: 'e
  view_shape :: "nat list"
  view_writeable :: bool

definition getitem :: "'e ndarray \<Rightarrow> nat \<Rightarrow> 'v error + 'e view" where
  "getitem a i =
     (if i < length (items a)
      then Inr \<lparr> view_data = items a ! i, view_shape = item_shape a, view_writeable = writeable a \<rparr>
      else Inl IndexError)"

definition read_only :: "'v error" where
  "read_only = ValueError [Lit ''assignment destination is read-only'']"

definition setitem :: "'e ndarray \<Rightarrow> nat \<Rightarrow> 'e \<Rightarrow> 'v error + 'e ndarray" where
  "setitem a i x =
     (if \<not> writeable a then Inl read_only
      else if i < length (items a) then Inr (a\<lparr>items := (items a)[i := x]\<rparr>)
      else Inl IndexError)"

definition view_assign :: "'e view \<Rightarrow> 'e \<Rightarrow> 'v error + 'e view" where
  "view_assign w x = (if \<not> view_writeable w then Inl read_only else Inr (w\<lparr>view_data := x\<rparr>))"

subsection \<open>\<open>Btfnpz.__init__\<close>\<close>

type_synonym 'a angles = "'a \<times> 'a \<times> 'a \<times> 'a"

text \<open>What \<open>np.load\<close> returns: the arrays stored under \<open>images\<close> and \<open>angles\<close>, if any. A
  row of the angle table is a tuple of four numbers of type \<open>'a\<close>; \<open>'px\<close> is the content of
  one image.\<close>

record ('px, 'a) npz =
  npz_images :: "'px ndarray option"
  npz_angles :: "'a angles ndarray option"

text \<open>The image collection is \<open>image_list\<close> in \<open>btf_helper\<close> and \<open>images_list\<close> in
  \<open>btfnpz-helper\<close>; the two constructors are the same otherwise.\<close>

record ('px, 'a) btfnpz =
  npz_filepath :: string
  image_list :: "'px ndarray"
  angles_list :: "'a angles ndarray"
  img_shape :: "nat list"
  angles_set :: "'a angles set"

definition Btfnpz_init :: "string \<Rightarrow> ('px, 'a) npz \<Rightarrow> 'a error + ('px, 'a) btfnpz" where
  "Btfnpz_init path loaded =
     (case npz_images loaded of
        None \<Rightarrow> Inl (KeyError ''images'')
      | Some images \<Rightarrow>
          (case npz_angles loaded of
             None \<Rightarrow> Inl (KeyError ''angles'')
           | Some angles \<Rightarrow>
               Inr \<lparr> npz_filepath = path,
                     image_list = images\<lparr>writeable := False\<rparr>,
                     angles_list = angles\<lparr>writeable := False\<rparr>,
                     img_shape = tl (shape (images\<lparr>writeable := False\<rparr>)),
                     angles_set = set (items (angles\<lparr>writeable := False\<rparr>)) \<rparr>))"

subsection \<open>\<open>Btfnpz.angles_to_image\<close>\<close>

text \<open>
  \<open>np.allclose(angles, np.array((tl, pl, tv, pv)))\<close> is outside the repository and is the
  parameter \<open>allclose\<close>: its first argument is the stored row, its second the query.
  The loop over \<open>enumerate(self.angles_list)\<close> returns the first index whose row passes.
\<close>

fun first_match :: "('a angles \<Rightarrow> 'a angles \<Rightarrow> bool) \<Rightarrow> 'a angles list \<Rightarrow> 'a angles \<Rightarrow> nat \<Rightarrow> nat option" where
  "first_match allclose [] q i = None"
| "first_match allclose (angles # rest) q i =
     (if allclose angles q then Some i else first_match allclose rest q (Suc i))"

text \<open>The message of \<open>btf_helper\<close>.\<close>

definition does_not_exist :: "'a angles \<Rightarrow> string \<Rightarrow> 'a error" where
  "does_not_exist q path =
     (case q of (a_tl, a_pl, a_tv, a_pv) \<Rightarrow>
        ValueError [Lit ''condition ('', Interp a_tl, Lit '', '', Interp a_pl, Lit '', '', Interp a_tv,
                    Lit '', '', Interp a_pv, Lit ('') does not exist in '' @ [CHR 0x27]),
                    Interp_str path, Lit (CHR 0x27 # ''.'')])"

definition angles_to_image ::
  "('a angles \<Rightarrow> 'a angles \<Rightarrow> bool) \<Rightarrow> ('px, 'a) btfnpz \<Rightarrow> 'a \<Rightarrow> 'a \<Rightarrow> 'a \<Rightarrow> 'a \<Rightarrow> 'a error + 'px view" where
  "angles_to_image allclose self a_tl a_pl a_tv a_pv =
     (case first_match allclose (items (angles_list self)) (a_tl, a_pl, a_tv, a_pv) 0 of
        Some i \<Rightarrow> getitem (image_list self) i
      | None \<Rightarrow> Inl (does_not_exist (a_tl, a_pl, a_tv, a_pv) (npz_filepath self)))"

text \<open>The message of \<open>btfnpz-helper\<close>.\<close>

definition not_found_helper :: "'a angles \<Rightarrow> 'a error" where
  "not_found_helper q =
     (case q of (a_tl, a_pl, a_tv, a_pv) \<Rightarrow>
        ValueError [Lit ''tl:'', Interp a_tl, Lit '', pl:'', Interp a_pl, Lit '', tv:'', Interp a_tv,
                    Lit '', pv:'', Interp a_pv, Lit '' not found''])"

definition angles_to_image_helper ::
  "('a angles \<Rightarrow> 'a angles \<Rightarrow> bool) \<Rightarrow> ('px, 'a) btfnpz \<Rightarrow> 'a \<Rightarrow> 'a \<Rightarrow> 'a \<Rightarrow> 'a \<Rightarrow> 'a error + 'px view" where
  "angles_to_image_helper allclose self a_tl a_pl a_tv a_pv =
     (case first_match allclose (items (angles_list self)) (a_tl, a_pl, a_tv, a_pv) 0 of
        Some i \<Rightarrow> getitem (image_list self) i
      | None \<Rightarrow> Inl (not_found_helper (a_tl, a_pl, a_tv, a_pv)))"

text \<open>
  A method call in state-passing form: the result and the reader after the call. Neither
  method assigns to an attribute or to an array.
\<close>

definition call_angles_to_image ::
  "('a angles \<Rightarrow> 'a angles \<Rightarrow> bool) \<Rightarrow> ('px, 'a) btfnpz \<Rightarrow> 'a angles
     \<Rightarrow> ('a error + 'px view) \<times> ('px, 'a) btfnpz" where
  "call_angles_to_image allclose self q =
     (case q of (a_tl, a_pl, a_tv, a_pv) \<Rightarrow> (angles_to_image allclose self a_tl a_pl a_tv a_pv, self))"

definition call_angles_to_image_helper ::
  "('a angles \<Rightarrow> 'a angles \<Rightarrow> bool) \<Rightarrow> ('px, 'a) btfnpz \<Rightarrow> 'a angles
     \<Rightarrow> ('a error + 'px view) \<times> ('px, 'a) btfnpz" where
  "call_angles_to_image_helper allclose self q =
     (case q of (a_tl, a_pl, a_tv, a_pv) \<Rightarrow>
        (angles_to_image_helper allclose self a_tl a_pl a_tv a_pv, self))"

text \<open>A run of calls of one of the two methods, each on the reader the previous one left;
  \<open>call\<close> is \<open>call_angles_to_image allclose\<close> or \<open>call_angles_to_image_helper allclose\<close>.\<close>

fun run_lookups ::
  "(('px, 'a) btfnpz \<Rightarrow> 'a angles \<Rightarrow> ('a error + 'px view) \<times> ('px, 'a) btfnpz)
     \<Rightarrow> ('px, 'a) btfnpz \<Rightarrow> 'a angles list \<Rightarrow> ('a error + 'px view) list \<times> ('px, 'a) btfnpz" where
  "run_lookups call self [] = ([], self)"
| "run_lookups call self (q # qs) =
     (case call self q of (r, self') \<Rightarrow>
        (case run_lookups call self' qs of (rs, self'') \<Rightarrow> (r # rs, self'')))"

subsection \<open>The tolerance test on exact numbers\<close>

text \<open>
  numpy documents \<open>allclose(a, b)\<close> as \<open>absolute(a - b) <= atol + rtol * absolute(b)\<close> on
  every component, with \<open>rtol = 1e-05\<close> and \<open>atol = 1e-08\<close>. Here the formula is taken over
  the rationals, without the rounding of float arithmetic; it serves for concrete
  archives whose comparisons are far from the bound.
\<close>

definition rtol :: rat where "rtol = 1 / 100000"
definition atol :: rat where "atol = 1 / 100000000"

definition isclose :: "rat \<Rightarrow> rat \<Rightarrow> bool" where
  "isclose a b = (\<bar>a - b\<bar> \<le> atol + rtol * \<bar>b\<bar>)"

fun np_allclose :: "rat angles \<Rightarrow> rat angles \<Rightarrow> bool" where
  "np_allclose (a1, a2, a3, a4) (b1, b2, b3, b4) =
     (isclose a1 b1 \<and> isclose a2 b2 \<and> isclose a3 b3 \<and> isclose a4 b4)"

section \<open>Concrete archives\<close>

text \<open>The archive of the specification's example scenario, read with the separator \<open>_\<close>,
  and the reader the constructor makes of it.\<close>

definition example_names :: "string list" where
  "example_names = [''tl0_pl0_tv0_pv0.exr'', ''tl45_pl255_tv0_pv0.exr'']"

definition example_archive :: "(string \<times> string) list" where
  "example_archive = [(''tl0_pl0_tv0_pv0.exr'', ''first''), (''tl45_pl255_tv0_pv0.exr'', ''second'')]"

definition example_btfzip :: "string btfzip" where
  "example_btfzip =
     \<lparr> zip_filepath = ''a.zip'',
       zip_archive = example_archive,
       angles_vs_filepath_dict =
         [((Finite 0 (- 3), Finite 0 (- 3), Finite 0 (- 3), Finite 0 (- 3)), ''tl0_pl0_tv0_pv0.exr''),
          ((Finite 45000 (- 3), Finite 255000 (- 3), Finite 0 (- 3), Finite 0 (- 3)), ''tl45_pl255_tv0_pv0.exr'')],
       zip_angles_set =
         [(Finite 0 (- 3), Finite 0 (- 3), Finite 0 (- 3), Finite 0 (- 3)),
          (Finite 45000 (- 3), Finite 255000 (- 3), Finite 0 (- 3), Finite 0 (- 3))],
       angles_to_image_method = Cv2 \<rparr>"

definition key999 :: key where
  "key999 = (Finite 999000 (- 3), Finite 999000 (- 3), Finite 999000 (- 3), Finite 999000 (- 3))"

definition key1 :: key where
  "key1 = (Finite 1000 (- 3), Finite 1000 (- 3), Finite 1000 (- 3), Finite 1000 (- 3))"

definition key45 :: key where
  "key45 = (Finite 45000 (- 3), Finite 255000 (- 3), Finite 0 (- 3), Finite 0 (- 3))"

text \<open>
  The specification's wording "two inputs differ only beyond the 3rd decimal digit": the
  decimal expansions, cut after the third decimal digit, are the same. The function gives
  that cut in thousandths.
\<close>

fun cut_after_3rd_decimal :: "decimal \<Rightarrow> int option" where
  "cut_after_3rd_decimal (Finite m e) =
     Some (if - 3 \<le> e then m * 10 ^ nat (e + 3) else sgn m * (\<bar>m\<bar> div 10 ^ nat (- 3 - e)))"
| "cut_after_3rd_decimal _ = None"

text \<open>An archive with two entries one thousandth of a degree apart, and its reader.\<close>

definition rounding_names :: "string list" where
  "rounding_names = [''tl10.25_pl0_tv0_pv0.exr'', ''tl10.251_pl0_tv0_pv0.exr'']"

definition rounding_archive :: "(string \<times> string) list" where
  "rounding_archive = [(''tl10.25_pl0_tv0_pv0.exr'', ''first''), (''tl10.251_pl0_tv0_pv0.exr'', ''second'')]"

definition rounding_btfzip :: "string btfzip" where
  "rounding_btfzip =
     \<lparr> zip_filepath = ''r.zip'',
       zip_archive = rounding_archive,
       angles_vs_filepath_dict =
         [((Finite 10250 (- 3), Finite 0 (- 3), Finite 0 (- 3), Finite 0 (- 3)), ''tl10.25_pl0_tv0_pv0.exr''),
          ((Finite 10251 (- 3), Finite 0 (- 3), Finite 0 (- 3), Finite 0 (- 3)), ''tl10.251_pl0_tv0_pv0.exr'')],
       zip_angles_set =
         [(Finite 10250 (- 3), Finite 0 (- 3), Finite 0 (- 3), Finite 0 (- 3)),
          (Finite 10251 (- 3), Finite 0 (- 3), Finite 0 (- 3), Finite 0 (- 3))],
       angles_to_image_method = Cv2 \<rparr>"

text \<open>The floats \<open>10.2501\<close> and \<open>10.2502\<close> as \<open>Decimal\<close> converts them, and the floats
  \<open>10.2501220703125\<close> and \<open>10.2508544921875\<close>, which are \<open>10.25 + 1/8192\<close> and
  \<open>10.25 + 7/8192\<close> exactly.\<close>

definition float_10_2501 :: decimal where
  "float_10_2501 = Finite 10250099999999999766941982670687139034271240234375 (- 48)"

definition float_10_2502 :: decimal where
  "float_10_2502 = Finite 1025019999999999953388396534137427806854248046875 (- 47)"

definition float_lo :: decimal where
  "float_lo = Finite 102501220703125 (- 13)"

definition float_hi :: decimal where
  "float_hi = Finite 102508544921875 (- 13)"

text \<open>
  A packed archive with two angle rows that are closer to each other than twice the
  tolerance, \<open>(300, 0, 0, 0)\<close> and \<open>(300 + 1/256, 0, 0, 0)\<close>, and its reader. All numbers are
  floats exactly.
\<close>

definition near_npz :: "(string, rat) npz" where
  "near_npz =
     \<lparr> npz_images = Some \<lparr> items = [''first'', ''second''], item_shape = [2, 2, 3], writeable = True \<rparr>,
       npz_angles = Some \<lparr> items = [(300, 0, 0, 0), (300 + 1 / 256, 0, 0, 0)], item_shape = [4],
                           writeable = True \<rparr> \<rparr>"

definition near_btfnpz :: "(string, rat) btfnpz" where
  "near_btfnpz =
     \<lparr> npz_filepath = ''near.btf.npz'',
       image_list = \<lparr> items = [''first'', ''second''], item_shape = [2, 2, 3], writeable = False \<rparr>,
       angles_list = \<lparr> items = [(300, 0, 0, 0), (300 + 1 / 256, 0, 0, 0)], item_shape = [4],
                       writeable = False \<rparr>,
       img_shape = [2, 2, 3],
       angles_set = {(300, 0, 0, 0), (300 + 1 / 256, 0, 0, 0)} \<rparr>"

definition first_view :: "string view" where
  "first_view = \<lparr> view_data = ''first'', view_shape = [2, 2, 3], view_writeable = False \<rparr>"


text \<open>The floats \<open>0.0625\<close> and \<open>0.1875\<close>, which lie exactly between two thousandths.\<close>

definition float_0_0625 :: decimal where
  "float_0_0625 = Finite 625 (- 4)"

definition float_0_1875 :: decimal where
  "float_0_1875 = Finite 1875 (- 4)"

text \<open>
  A packed archive whose angle table has two rows and whose image stack has one image, and
  the reader the constructor makes of it.
\<close>

definition short_npz :: "(string, rat) npz" where
  "short_npz =
     \<lparr> npz_images = Some \<lparr> items = [''first''], item_shape = [2, 2, 3], writeable = True \<rparr>,
       npz_angles = Some \<lparr> items = [(0, 0, 0, 0), (10, 0, 0, 0)], item_shape = [4],
                           writeable = True \<rparr> \<rparr>"

definition short_btfnpz :: "(string, rat) btfnpz" where
  "short_btfnpz =
     \<lparr> npz_filepath = ''short.btf.npz'',
       image_list = \<lparr> items = [''first''], item_shape = [2, 2, 3], writeable = False \<rparr>,
       angles_list = \<lparr> items = [(0, 0, 0, 0), (10, 0, 0, 0)], item_shape = [4], writeable = False \<rparr>,
       img_shape = [2, 2, 3],
       angles_set = {(0, 0, 0, 0), (10, 0, 0, 0)} \<rparr>"

text \<open>An archive with one entry, whose first angle field reads \<open>NaN\<close>, and its reader.\<close>

definition nan_names :: "string list" where
  "nan_names = [''tlNaN_pl0_tv0_pv0.exr'']"

definition nan_archive :: "(string \<times> string) list" where
  "nan_archive = [(''tlNaN_pl0_tv0_pv0.exr'', ''first'')]"

definition nan_btfzip :: "string btfzip" where
  "nan_btfzip =
     \<lparr> zip_filepath = ''n.zip'',
       zip_archive = nan_archive,
       angles_vs_filepath_dict =
         [((NaN, Finite 0 (- 3), Finite 0 (- 3), Finite 0 (- 3)), ''tlNaN_pl0_tv0_pv0.exr'')],
       zip_angles_set = [(NaN, Finite 0 (- 3), Finite 0 (- 3), Finite 0 (- 3))],
       angles_to_image_method = Cv2 \<rparr>"

text \<open>\<open>cv2.imdecode\<close> on entries none of which holds an image: it returns \<open>None\<close> on each.\<close>

definition imdecode_no_image :: "string \<Rightarrow> string cv2_result" where
  "imdecode_no_image data = Cv2_None"

section \<open>An invariant of the mapping\<close>

text \<open>Every name in the mapping parses, with the reader's separator, to the key it is
  stored under.\<close>

abbreviation names_parse :: "string \<Rightarrow> (key \<times> string) list \<Rightarrow> bool" where
  "names_parse sep d \<equiv> (\<forall>(k, p) \<in> set d. filename_to_angles p (Some sep) = (Inr k :: key error + key))"

section \<open>Properties\<close>

subsection \<open>Which exceptions the parsing of a name can raise\<close>

lemma bnd_Inl [simp]: "bnd (Inl e) f = Inl e"
  by (simp add: bnd_def)

lemma bnd_Inr [simp]: "bnd (Inr x) f = f x"
  by (simp add: bnd_def)

lemma bnd_eq_Inr: "bnd m f = Inr y \<longleftrightarrow> (\<exists>x. m = Inr x \<and> f x = Inr y)"
  by (cases m) simp_all

lemma bnd_eq_Inl: "bnd m f = Inl e \<longleftrightarrow> (m = Inl e \<or> (\<exists>x. m = Inr x \<and> f x = Inl e))"
  by (cases m) simp_all

lemma Decimal_of_str_Inl: "Decimal_of_str s = Inl e \<Longrightarrow> e = InvalidOperation"
  by (auto simp: Decimal_of_str_def Let_def split: prod.splits if_splits option.splits)

lemma quantize_Inl: "quantize d p = Inl e \<Longrightarrow> e = InvalidOperation"
  by (cases "(d, p)" rule: quantize.cases) (auto simp: Let_def split: if_splits)

lemma angle_field_Inl: "angle_field angles i = Inl e \<Longrightarrow> e = InvalidOperation \<or> e = IndexError"
  by (auto simp: angle_field_def bnd_eq_Inl split: if_splits dest: Decimal_of_str_Inl quantize_Inl)

lemma angle_field_not_ValueError: "angle_field angles i = Inl e \<Longrightarrow> \<not> is_ValueError e"
  by (auto dest: angle_field_Inl)

lemma bnd4_Inl:
  assumes "bnd m0 (\<lambda>a. bnd m1 (\<lambda>b. bnd m2 (\<lambda>c. bnd m3 (\<lambda>d. Inr (a, b, c, d))))) = Inl e"
  shows "m0 = Inl e \<or> m1 = Inl e \<or> m2 = Inl e \<or> m3 = Inl e"
  using assms by (auto simp: bnd_eq_Inl)

lemma except_ValueError_dead:
  assumes "\<And>e. body = Inl e \<Longrightarrow> \<not> is_ValueError e"
  shows "except_ValueError angles body = body"
  using assms by (cases body) (auto simp: except_ValueError_def)

lemma angle_fields_Inl:
  assumes "bnd (angle_field angles i0) (\<lambda>a. bnd (angle_field angles i1) (\<lambda>b.
           bnd (angle_field angles i2) (\<lambda>c. bnd (angle_field angles i3) (\<lambda>d. Inr (a, b, c, d))))) = Inl e"
  shows "e = InvalidOperation \<or> e = IndexError"
  using bnd4_Inl [OF assms] angle_field_Inl by blast

lemma filename_to_angles_Inl:
  assumes "filename_to_angles filename sep_arg = Inl e"
  shows "e = TypeError_missing_argument ''sep'' \<or> e = ValueError_empty_separator
         \<or> e = InvalidOperation \<or> e = IndexError"
proof (cases sep_arg)
  case None
  with assms show ?thesis by (simp add: filename_to_angles_def)
next
  case (Some sep)
  show ?thesis
  proof (cases "sep = []")
    case True
    with Some assms show ?thesis by (simp add: filename_to_angles_def py_split_def Let_def)
  next
    case False
    define angles where
      "angles = split_on sep [] (take (length (last (split_on ''/'' [] filename)) - 4)
                                      (last (split_on ''/'' [] filename)))"
    define body :: "'a error + key" where
      "body = bnd (angle_field angles 0) (\<lambda>a. bnd (angle_field angles 1) (\<lambda>b.
              bnd (angle_field angles 2) (\<lambda>c. bnd (angle_field angles 3) (\<lambda>d. Inr (a, b, c, d)))))"
    have err: "e' = InvalidOperation \<or> e' = IndexError" if "body = Inl e'" for e'
      using that unfolding body_def by (rule angle_fields_Inl)
    have "except_ValueError angles body = body"
      by (rule except_ValueError_dead) (auto dest: err)
    moreover have "filename_to_angles filename sep_arg = except_ValueError angles body"
      using Some False by (simp add: filename_to_angles_def py_split_def Let_def angles_def body_def)
    ultimately have "body = Inl e" using assms by simp
    then show ?thesis using err by blast
  qed
qed

subsection \<open>The filename reader: construction\<close>

text \<open>
  C3. A filename reader over an archive in which two filtered entries have the same
  quantized angles should print a line for every duplicated tuple and then fail with the
  duplicate-condition \<open>RuntimeError\<close> naming the archive. The source does not get there.
  On the archive with the entries \<open>a/tl0_pl0_tv0_pv0.exr\<close> and \<open>b/tl0_pl0_tv0_pv0.exr\<close>,
  read with the separator \<open>_\<close>, the constructor prints nothing and raises the \<open>TypeError\<close>
  of the call \<open>self._filename_to_angles(path)\<close>, which passes no \<open>sep\<close>, in either order of
  iteration; and on no archive at all does it print a line or raise the \<open>RuntimeError\<close>.
\<close>

theorem C3_duplicates_raise_TypeError:
  "iterates [''a/tl0_pl0_tv0_pv0.exr'', ''b/tl0_pl0_tv0_pv0.exr'']
     (filepath_set (map fst [(''a/tl0_pl0_tv0_pv0.exr'', ''x''), (''b/tl0_pl0_tv0_pv0.exr'', ''y'')]) ''.exr'')
   \<and> Btfzip_init ''a.zip''
     [(''a/tl0_pl0_tv0_pv0.exr'', ''x''), (''b/tl0_pl0_tv0_pv0.exr'', ''y'')]
     [''a/tl0_pl0_tv0_pv0.exr'', ''b/tl0_pl0_tv0_pv0.exr''] ''.exr'' ''_''
     = ([], Inl (TypeError_missing_argument ''sep''))
   \<and> Btfzip_init ''a.zip''
     [(''a/tl0_pl0_tv0_pv0.exr'', ''x''), (''b/tl0_pl0_tv0_pv0.exr'', ''y'')]
     [''b/tl0_pl0_tv0_pv0.exr'', ''a/tl0_pl0_tv0_pv0.exr''] ''.exr'' ''_''
     = ([], Inl (TypeError_missing_argument ''sep''))
   \<and> (\<forall>path (archive :: (string \<times> 'b) list) paths file_ext angle_sep.
         fst (Btfzip_init path archive paths file_ext angle_sep) = []
         \<and> (\<forall>msg. snd (Btfzip_init path archive paths file_ext angle_sep) \<noteq> Inl (RuntimeError msg)))"
proof (intro conjI allI)
  show "iterates [''a/tl0_pl0_tv0_pv0.exr'', ''b/tl0_pl0_tv0_pv0.exr'']
     (filepath_set (map fst [(''a/tl0_pl0_tv0_pv0.exr'', ''x''), (''b/tl0_pl0_tv0_pv0.exr'', ''y'')]) ''.exr'')"
    by code_simp
  show "Btfzip_init ''a.zip''
     [(''a/tl0_pl0_tv0_pv0.exr'', ''x''), (''b/tl0_pl0_tv0_pv0.exr'', ''y'')]
     [''a/tl0_pl0_tv0_pv0.exr'', ''b/tl0_pl0_tv0_pv0.exr''] ''.exr'' ''_''
     = ([], Inl (TypeError_missing_argument ''sep''))"
    by code_simp
  show "Btfzip_init ''a.zip''
     [(''a/tl0_pl0_tv0_pv0.exr'', ''x''), (''b/tl0_pl0_tv0_pv0.exr'', ''y'')]
     [''b/tl0_pl0_tv0_pv0.exr'', ''a/tl0_pl0_tv0_pv0.exr''] ''.exr'' ''_''
     = ([], Inl (TypeError_missing_argument ''sep''))"
    by code_simp
next
  fix path and archive :: "(string \<times> 'b) list" and paths file_ext angle_sep
  have lc: "list_comprehension ps = Inl (TypeError_missing_argument ''sep'')" if "ps \<noteq> []" for ps
    using that by (cases ps) (simp_all add: filename_to_angles_def)
  have ne: "paths \<noteq> []"
    if "dict_comprehension paths angle_sep [] = Inr d" "length paths \<noteq> length (map fst d)" for d
    using that by (cases paths) auto
  show "fst (Btfzip_init path archive paths file_ext angle_sep) = []"
    by (auto simp: Btfzip_init_def lc dest: ne split: sum.splits)
  fix msg
  show "snd (Btfzip_init path archive paths file_ext angle_sep) \<noteq> Inl (RuntimeError msg)"
  proof (cases "dict_comprehension paths angle_sep []")
    case (Inl e)
    then have "snd (Btfzip_init path archive paths file_ext angle_sep) = Inl e"
      by (simp add: Btfzip_init_def)
    moreover have "e \<noteq> RuntimeError msg"
    proof (cases paths)
      case Nil
      with Inl show ?thesis by simp
    next
      case (Cons p ps)
      have "\<And>d. dict_comprehension paths angle_sep d = Inl e
            \<Longrightarrow> \<exists>q. filename_to_angles q (Some angle_sep) = (Inl e :: key error + key)"
      proof (induction paths)
        case Nil
        then show ?case by simp
      next
        case (Cons q qs)
        then show ?case by (auto simp: bnd_eq_Inl)
      qed
      from this [OF Inl] obtain q where "filename_to_angles q (Some angle_sep) = (Inl e :: key error + key)" ..
      from filename_to_angles_Inl [OF this] show ?thesis by auto
    qed
    ultimately show ?thesis by simp
  next
    case (Inr d)
    then show ?thesis
      by (auto simp: Btfzip_init_def lc dest: ne)
  qed
qed

text \<open>
  C6. When a filtered entry has a non-numeric angle field, construction should fail with the
  descriptive \<open>ValueError("invalid angle:", angles)\<close> that names the fields of the file.
  It fails, but not so: \<open>Decimal\<close> raises \<open>decimal.InvalidOperation\<close>, which
  \<open>except ValueError\<close> does not catch. On the archive whose only entry is
  \<open>tlabc pl0 tv0 pv0.exr\<close> the parsing of the name and the constructor raise
  \<open>InvalidOperation\<close>; and no name at all makes the parsing raise the descriptive error.
\<close>

theorem C6_malformed_angle_raises_InvalidOperation:
  "filename_to_angles ''tlabc pl0 tv0 pv0.exr'' (Some '' '') = (Inl InvalidOperation :: key error + key)
   \<and> iterates [''tlabc pl0 tv0 pv0.exr''] (filepath_set (map fst [(''tlabc pl0 tv0 pv0.exr'', ''x'')]) ''.exr'')
   \<and> Btfzip_init ''a.zip'' [(''tlabc pl0 tv0 pv0.exr'', ''x'')] [''tlabc pl0 tv0 pv0.exr''] ''.exr'' '' ''
       = ([], Inl InvalidOperation)
   \<and> (\<forall>filename sep_arg angles.
         filename_to_angles filename sep_arg \<noteq> (Inl (ValueError_invalid_angle angles) :: key error + key))"
proof (intro conjI allI)
  show "filename_to_angles ''tlabc pl0 tv0 pv0.exr'' (Some '' '') = (Inl InvalidOperation :: key error + key)"
    by code_simp
  show "iterates [''tlabc pl0 tv0 pv0.exr''] (filepath_set (map fst [(''tlabc pl0 tv0 pv0.exr'', ''x'')]) ''.exr'')"
    by code_simp
  show "Btfzip_init ''a.zip'' [(''tlabc pl0 tv0 pv0.exr'', ''x'')] [''tlabc pl0 tv0 pv0.exr''] ''.exr'' '' ''
       = ([], Inl InvalidOperation)"
    by code_simp
next
  fix filename sep_arg angles
  show "filename_to_angles filename sep_arg \<noteq> (Inl (ValueError_invalid_angle angles) :: key error + key)"
    using filename_to_angles_Inl [of filename sep_arg "ValueError_invalid_angle angles :: key error"]
    by auto
qed

text \<open>
  C7. The parsing of an entry's name should strip the whole extension, whatever extension
  the reader was configured with. The source strips the last four characters. With the
  extension \<open>.jpeg\<close>, which the constructor itself provides for, the name
  \<open>tl20.25 pl10 tv11.5 pv0.5.jpeg\<close> keeps the dot of the extension in its last field and
  \<open>Decimal("0.5.")\<close> raises, in the parsing and so in the constructor; the same name with the
  extension \<open>.jpg\<close> gives the four angles.
\<close>

theorem C7_jpeg_extension_not_stripped:
  "filename_to_angles ''tl20.25 pl10 tv11.5 pv0.5.jpeg'' (Some '' '') = (Inl InvalidOperation :: key error + key)
   \<and> iterates [''tl20.25 pl10 tv11.5 pv0.5.jpeg'']
        (filepath_set (map fst [(''tl20.25 pl10 tv11.5 pv0.5.jpeg'', ''x'')]) ''.jpeg'')
   \<and> Btfzip_init ''a.zip'' [(''tl20.25 pl10 tv11.5 pv0.5.jpeg'', ''x'')]
        [''tl20.25 pl10 tv11.5 pv0.5.jpeg''] ''.jpeg'' '' '' = ([], Inl InvalidOperation)
   \<and> filename_to_angles ''tl20.25 pl10 tv11.5 pv0.5.jpg'' (Some '' '')
       = (Inr (Finite 20250 (- 3), Finite 10000 (- 3), Finite 11500 (- 3), Finite 500 (- 3)) :: key error + key)"
  by code_simp

subsection \<open>The filename reader: lookup\<close>

lemma example_btfzip_constructed:
  "Btfzip_init ''a.zip'' example_archive example_names ''.exr'' ''_'' = ([], Inr example_btfzip)"
  by code_simp

lemma dict_get_None_iff: "dict_get d k = None \<longleftrightarrow> (\<forall>k' \<in> set (map fst d). \<not> key_eq k' k)"
  by (induction d k rule: dict_get.induct) auto

lemma dict_get_Some: "dict_get d k = Some v \<Longrightarrow> \<exists>k'. (k', v) \<in> set d \<and> key_eq k' k"
  by (induction d k rule: dict_get.induct) (auto split: if_splits)

text \<open>
  C4. A lookup of the filename reader whose four inputs quantize to a tuple \<open>k\<close> that equals
  no key of the mapping raises the not-found \<open>ValueError\<close>, in the general lookup, in the
  JPEG lookup and so in the method the constructor bound; the message carries \<open>k\<close> and the
  path of the archive; no image is returned.
\<close>

theorem C4_absent_key_not_found:
  assumes "lookup_key a_tl a_pl a_tv a_pv = (Inr k :: key error + key)"
    and "\<forall>k' \<in> set (map fst (angles_vs_filepath_dict self)). \<not> key_eq k' k"
  shows "angles_to_image_cv2 imdecode self a_tl a_pl a_tv a_pv = Inl (not_found k (zip_filepath self))
       \<and> angles_to_image_simplejpeg decode_jpeg self a_tl a_pl a_tv a_pv = Inl (not_found k (zip_filepath self))
       \<and> zip_angles_to_image imdecode decode_jpeg self a_tl a_pl a_tv a_pv = Inl (not_found k (zip_filepath self))
       \<and> (\<forall>img. zip_angles_to_image imdecode decode_jpeg self a_tl a_pl a_tv a_pv \<noteq> Inr img)
       \<and> (\<exists>msg. not_found k (zip_filepath self) = ValueError msg
              \<and> Interp k \<in> set msg \<and> Interp_str (zip_filepath self) \<in> set msg)"
proof -
  have "dict_get (angles_vs_filepath_dict self) k = None"
    using assms(2) by (simp only: dict_get_None_iff)
  then show ?thesis
    using assms(1)
    by (simp add: zip_angles_to_image_def angles_to_image_cv2_def angles_to_image_simplejpeg_def
          not_found_def split: decoder.splits)
qed

theorem C4_absent_key_not_found_witness:
  "lookup_key (Finite 999 0) (Finite 999 0) (Finite 999 0) (Finite 999 0) = (Inr key999 :: key error + key)
   \<and> dict_get (angles_vs_filepath_dict example_btfzip) key999 = None
   \<and> angles_to_image_cv2 Cv2_image example_btfzip (Finite 999 0) (Finite 999 0) (Finite 999 0) (Finite 999 0)
       = Inl (not_found key999 ''a.zip'')
   \<and> angles_to_image_simplejpeg Some example_btfzip (Finite 999 0) (Finite 999 0) (Finite 999 0) (Finite 999 0)
       = Inl (not_found key999 ''a.zip'')"
proof -
  have k: "lookup_key (Finite 999 0) (Finite 999 0) (Finite 999 0) (Finite 999 0) = (Inr key999 :: key error + key)"
    by code_simp
  have n: "dict_get (angles_vs_filepath_dict example_btfzip) key999 = None"
    by code_simp
  have p: "zip_filepath example_btfzip = ''a.zip''"
    by (simp add: example_btfzip_def)
  from n have a: "\<forall>k' \<in> set (map fst (angles_vs_filepath_dict example_btfzip)). \<not> key_eq k' key999"
    by (simp only: dict_get_None_iff)
  show ?thesis
    using C4_absent_key_not_found [OF k a, of Cv2_image Some] k n p by simp
qed

lemma dict_set_values: "snd ` set (dict_set d k v) \<subseteq> insert v (snd ` set d)"
  by (induction d k v rule: dict_set.induct) auto

lemma dict_comprehension_values:
  "dict_comprehension paths sep d = Inr d' \<Longrightarrow> snd ` set d' \<subseteq> snd ` set d \<union> set paths"
proof (induction paths arbitrary: d)
  case Nil
  then show ?case by simp
next
  case (Cons p ps)
  from Cons.prems obtain k where "dict_comprehension ps sep (dict_set d k p) = Inr d'"
    by (auto simp: bnd_eq_Inr)
  from Cons.IH [OF this] dict_set_values [of d k p] show ?case by auto
qed

lemma endswith_nonempty: "endswith p ext \<Longrightarrow> ext \<noteq> [] \<Longrightarrow> p \<noteq> []"
  by (auto simp: endswith_def)

lemma Btfzip_init_Inr:
  assumes "Btfzip_init path archive paths file_ext angle_sep = (out, Inr self)"
  shows "dict_comprehension paths angle_sep [] = Inr (angles_vs_filepath_dict self)"
    and "zip_angles_set self = map fst (angles_vs_filepath_dict self)"
    and "zip_filepath self = path"
    and "zip_archive self = archive"
    and "length paths = length (angles_vs_filepath_dict self)"
    and "out = []"
  using assms by (auto simp: Btfzip_init_def split: sum.splits if_splits)

lemma found_is_not_not_found:
  assumes "dict_get (angles_vs_filepath_dict self) k = Some p" "p \<noteq> []"
    and "lookup_key a_tl a_pl a_tv a_pv = (Inr k :: key error + key)"
  shows "zip_angles_to_image imdecode decode_jpeg self a_tl a_pl a_tv a_pv \<noteq> Inl (not_found k' path)"
  using assms
  by (auto simp: zip_angles_to_image_def angles_to_image_cv2_def angles_to_image_simplejpeg_def
        zip_read_def not_found_def split: decoder.splits option.splits cv2_result.splits)

lemma absent_is_not_found:
  assumes "dict_get (angles_vs_filepath_dict self) k = None"
    and "lookup_key a_tl a_pl a_tv a_pv = (Inr k :: key error + key)"
  shows "zip_angles_to_image imdecode decode_jpeg self a_tl a_pl a_tv a_pv
           = Inl (not_found k (zip_filepath self))"
  using assms
  by (auto simp: zip_angles_to_image_def angles_to_image_cv2_def angles_to_image_simplejpeg_def
        split: decoder.splits)

text \<open>
  C10. In a filename reader constructed with a non-empty extension filter every value of the
  mapping ends with the extension and so is a non-empty string; hence a lookup whose inputs
  quantize to \<open>k\<close> raises the not-found error exactly when no tuple of \<open>angles_set\<close> equals
  \<open>k\<close>.
\<close>

theorem C10_not_found_iff_absent:
  assumes init: "Btfzip_init path archive paths file_ext angle_sep = (out, Inr self)"
    and ext: "file_ext \<noteq> []"
    and it: "iterates paths (filepath_set (map fst archive) file_ext)"
    and key: "lookup_key a_tl a_pl a_tv a_pv = (Inr k :: key error + key)"
  shows "(\<forall>(k', p) \<in> set (angles_vs_filepath_dict self). p \<noteq> [] \<and> endswith p file_ext)
       \<and> (zip_angles_to_image imdecode decode_jpeg self a_tl a_pl a_tv a_pv
             = Inl (not_found k (zip_filepath self))
            \<longleftrightarrow> \<not> (\<exists>k' \<in> set (zip_angles_set self). key_eq k' k))"
proof
  have "snd ` set (angles_vs_filepath_dict self) \<subseteq> set paths"
    using dict_comprehension_values [OF Btfzip_init_Inr(1) [OF init]] by simp
  moreover have "endswith p file_ext" if "p \<in> set paths" for p
    using that it by (auto simp: iterates_def filepath_set_def)
  ultimately have ends: "endswith p file_ext" if "(k', p) \<in> set (angles_vs_filepath_dict self)" for k' p
    using that by force
  then show vals: "\<forall>(k', p) \<in> set (angles_vs_filepath_dict self). p \<noteq> [] \<and> endswith p file_ext"
    using ext endswith_nonempty by blast
  show "zip_angles_to_image imdecode decode_jpeg self a_tl a_pl a_tv a_pv
             = Inl (not_found k (zip_filepath self))
            \<longleftrightarrow> \<not> (\<exists>k' \<in> set (zip_angles_set self). key_eq k' k)"
  proof (cases "dict_get (angles_vs_filepath_dict self) k")
    case None
    then have "\<not> (\<exists>k' \<in> set (zip_angles_set self). key_eq k' k)"
      by (simp add: dict_get_None_iff Btfzip_init_Inr(2) [OF init])
    with absent_is_not_found [OF None key] show ?thesis by simp
  next
    case (Some p)
    from dict_get_Some [OF Some] obtain k' where k': "(k', p) \<in> set (angles_vs_filepath_dict self)" "key_eq k' k"
      by blast
    then have "p \<noteq> []" using vals by auto
    from found_is_not_not_found [OF Some this key]
    have "zip_angles_to_image imdecode decode_jpeg self a_tl a_pl a_tv a_pv \<noteq> Inl (not_found k (zip_filepath self))" .
    moreover have "\<exists>k' \<in> set (zip_angles_set self). key_eq k' k"
      using k' by (force simp: Btfzip_init_Inr(2) [OF init])
    ultimately show ?thesis by simp
  qed
qed

theorem C10_not_found_iff_absent_witness:
  "Btfzip_init ''a.zip'' example_archive example_names ''.exr'' ''_'' = ([], Inr example_btfzip)
   \<and> iterates example_names (filepath_set (map fst example_archive) ''.exr'')
   \<and> lookup_key (Finite 1 0) (Finite 1 0) (Finite 1 0) (Finite 1 0) = (Inr key1 :: key error + key)
   \<and> list_all (\<lambda>(k', p). p \<noteq> [] \<and> endswith p ''.exr'') (angles_vs_filepath_dict example_btfzip)
   \<and> \<not> (\<exists>k' \<in> set (zip_angles_set example_btfzip). key_eq k' key1)
   \<and> zip_angles_to_image Cv2_image Some example_btfzip
        (Finite 1 0) (Finite 1 0) (Finite 1 0) (Finite 1 0) = Inl (not_found key1 ''a.zip'')"
proof -
  have i: "Btfzip_init ''a.zip'' example_archive example_names ''.exr'' ''_'' = ([], Inr example_btfzip)"
    by (rule example_btfzip_constructed)
  have e: "''.exr'' \<noteq> []" by simp
  have t: "iterates example_names (filepath_set (map fst example_archive) ''.exr'')"
    by code_simp
  have k: "lookup_key (Finite 1 0) (Finite 1 0) (Finite 1 0) (Finite 1 0) = (Inr key1 :: key error + key)"
    by code_simp
  have a: "\<not> (\<exists>k' \<in> set (zip_angles_set example_btfzip). key_eq k' key1)"
    by code_simp
  have p: "zip_filepath example_btfzip = ''a.zip''"
    by (simp add: example_btfzip_def)
  show ?thesis
    using C10_not_found_iff_absent [OF i e t k, of Cv2_image Some] i t k a p
    by (simp add: list_all_iff)
qed

subsection \<open>The filename reader: quantization\<close>

lemma round_half_even_nonneg: "0 \<le> c \<Longrightarrow> 0 < d \<Longrightarrow> 0 \<le> round_half_even c d"
  by (simp add: round_half_even_def Let_def pos_imp_zdiv_nonneg_iff)

lemma rescale_nonneg: "0 \<le> c \<Longrightarrow> 0 \<le> rescale c e ex"
  by (simp add: rescale_def round_half_even_nonneg)

lemma rescale_same: "rescale c e e = c"
  by (simp add: rescale_def)

lemma quantize_Finite_cases:
  assumes "quantize (Finite m e) (Finite p ex) = (Inr q :: 'v error + decimal)"
  shows "q = Finite (sgn m * rescale \<bar>m\<bar> e ex) ex
         \<and> (m \<noteq> 0 \<longrightarrow> adjusted (rescale \<bar>m\<bar> e ex) ex \<le> Emax \<and> ndigits (rescale \<bar>m\<bar> e ex) \<le> prec)
         \<and> Etiny \<le> ex \<and> ex \<le> Emax"
  using assms by (auto simp: Let_def rescale_def round_half_even_def split: if_splits)

lemma quantize_idem:
  assumes "quantize d DECIMAL_PRECISION = (Inr q :: 'v error + decimal)"
  shows "quantize q DECIMAL_PRECISION = (Inr q :: 'v error + decimal)"
proof (cases d)
  case (Finite m e)
  define c where "c = rescale \<bar>m\<bar> e (- 3)"
  have c0: "0 \<le> c" by (simp add: c_def rescale_nonneg)
  have "quantize (Finite m e) (Finite 1 (- 3)) = (Inr q :: 'v error + decimal)"
    using assms Finite by (simp only: DECIMAL_PRECISION_def)
  from quantize_Finite_cases [OF this]
  have q: "q = Finite (sgn m * c) (- 3)"
    and chk: "m \<noteq> 0 \<longrightarrow> adjusted c (- 3) \<le> Emax \<and> ndigits c \<le> prec"
    by (simp_all add: c_def)
  show ?thesis
  proof (cases "sgn m * c = 0")
    case True
    then show ?thesis by (simp add: q DECIMAL_PRECISION_def Etiny_def Emin_def Emax_def prec_def)
  next
    case False
    then have m: "m \<noteq> 0" and c: "0 < c" using c0 by (auto simp: less_le)
    have abs: "\<bar>sgn m * c\<bar> = c" using m c by (simp add: abs_mult)
    have sg: "sgn (sgn m * c) = sgn m" using m c by (simp add: sgn_mult)
    from chk m have chk': "adjusted c (- 3) \<le> Emax" "ndigits c \<le> prec" by simp_all
    have adj: "adjusted (sgn m * c) (- 3) = adjusted c (- 3)"
      using abs c by (simp add: adjusted_def)
    have adj2: "adjusted c (- 3) - (- 3) + 1 = ndigits c"
      using c by (simp add: adjusted_def)
    show ?thesis
      using False chk' adj2
      by (simp add: q DECIMAL_PRECISION_def adj abs sg rescale_same Let_def Etiny_def Emin_def Emax_def prec_def)
  qed
next
  case (Infinity s)
  with assms show ?thesis by (simp add: DECIMAL_PRECISION_def)
next
  case NaN
  with assms show ?thesis by (auto simp: DECIMAL_PRECISION_def)
next
  case sNaN
  with assms show ?thesis by (simp add: DECIMAL_PRECISION_def)
qed

lemma round_half_even_nearest:
  assumes "0 \<le> c" "0 < d"
  shows "2 * \<bar>c - round_half_even c d * d\<bar> \<le> d"
proof -
  have r: "0 \<le> c mod d" "c mod d < d" using assms by simp_all
  have e: "c = c div d * d + c mod d" by simp
  have a: "c - c div d * d = c mod d" by (simp add: minus_div_mult_eq_mod)
  have b: "c - (c div d + 1) * d = c mod d - d" by (simp add: algebra_simps minus_div_mult_eq_mod a [symmetric])
  show ?thesis
    using r unfolding round_half_even_def Let_def
    by (auto simp: a b)
qed

lemma rounding_btfzip_constructed:
  "Btfzip_init ''r.zip'' rounding_archive rounding_names ''.exr'' ''_'' = ([], Inr rounding_btfzip)"
  by code_simp

lemma same_key_same_entry:
  assumes "lookup_key a b c d = (lookup_key a' b' c' d' :: key error + key)"
  shows "zip_angles_to_image imdecode decode_jpeg self a b c d
           = zip_angles_to_image imdecode decode_jpeg self a' b' c' d'"
  using assms
  by (simp add: zip_angles_to_image_def angles_to_image_cv2_def angles_to_image_simplejpeg_def
        split: decoder.splits)

subsection \<open>The packed reader: lookup\<close>

lemma near_btfnpz_constructed: "Btfnpz_init ''near.btf.npz'' near_npz = Inr near_btfnpz"
  by (simp add: Btfnpz_init_def near_npz_def near_btfnpz_def shape_def)

lemma first_match_Some_iff:
  "first_match f xs q n = Some k
     \<longleftrightarrow> n \<le> k \<and> k - n < length xs \<and> f (xs ! (k - n)) q \<and> (\<forall>j < k - n. \<not> f (xs ! j) q)"
proof (induction xs arbitrary: n)
  case Nil
  then show ?case by simp
next
  case (Cons x xs)
  show ?case
  proof (cases "f x q")
    case True
    then show ?thesis by (cases "k = n") (auto simp: nth_Cons')
  next
    case False
    have "first_match f (x # xs) q n = Some k \<longleftrightarrow> first_match f xs q (Suc n) = Some k"
      using False by simp
    also have "\<dots> \<longleftrightarrow> Suc n \<le> k \<and> k - Suc n < length xs \<and> f (xs ! (k - Suc n)) q
                         \<and> (\<forall>j < k - Suc n. \<not> f (xs ! j) q)"
      by (rule Cons.IH)
    also have "\<dots> \<longleftrightarrow> n \<le> k \<and> k - n < length (x # xs) \<and> f ((x # xs) ! (k - n)) q
                         \<and> (\<forall>j < k - n. \<not> f ((x # xs) ! j) q)"
    proof (cases "k \<le> n")
      case True
      then show ?thesis using False by (cases "k = n") auto
    next
      case gt: False
      then obtain d where d: "k - n = Suc d" "k - Suc n = d" by (cases "k - n") auto
      have "(\<forall>j < Suc d. \<not> f ((x # xs) ! j) q) \<longleftrightarrow> (\<forall>j < d. \<not> f (xs ! j) q)"
        using False by (auto simp: less_Suc_eq_0_disj)
      then show ?thesis using gt d by auto
    qed
    finally show ?thesis .
  qed
qed

lemma first_match_None_iff: "first_match f xs q n = None \<longleftrightarrow> (\<forall>x \<in> set xs. \<not> f x q)"
  by (induction xs arbitrary: n) auto






lemma call_angles_to_image_state [simp]:
  "snd (call_angles_to_image allclose self q) = self"
  "snd (call_angles_to_image_helper allclose self q) = self"
  by (simp_all add: call_angles_to_image_def call_angles_to_image_helper_def split: prod.splits)

lemma run_lookups_state:
  assumes "\<And>r q. snd (call r q) = r"
  shows "snd (run_lookups call self qs) = self"
proof (induction qs arbitrary: self)
  case Nil
  then show ?case by simp
next
  case (Cons q qs)
  obtain r self' where c: "call self q = (r, self')" by (cases "call self q")
  with assms [of self q] have "self' = self" by simp
  with c Cons.IH [of self] show ?case by (cases "run_lookups call self qs") simp
qed

text \<open>
  What the two variants do when no stored row passes the test against the query: each
  raises a \<open>ValueError\<close> that carries the four queried values and leaves the reader as it
  was, so that later lookups behave as before; the message of \<open>btf_helper\<close> carries the path
  of the archive as well.
\<close>

lemma not_found_leaves_reader:
  assumes "\<forall>s \<in> set (items (angles_list self)). \<not> allclose s (a_tl, a_pl, a_tv, a_pv)"
  shows "call_angles_to_image allclose self (a_tl, a_pl, a_tv, a_pv)
           = (Inl (does_not_exist (a_tl, a_pl, a_tv, a_pv) (npz_filepath self)), self)
       \<and> (\<exists>msg. does_not_exist (a_tl, a_pl, a_tv, a_pv) (npz_filepath self) = ValueError msg
              \<and> Interp a_tl \<in> set msg \<and> Interp a_pl \<in> set msg \<and> Interp a_tv \<in> set msg
              \<and> Interp a_pv \<in> set msg \<and> Interp_str (npz_filepath self) \<in> set msg)
       \<and> call_angles_to_image_helper allclose self (a_tl, a_pl, a_tv, a_pv)
           = (Inl (not_found_helper (a_tl, a_pl, a_tv, a_pv)), self)
       \<and> (\<exists>msg. not_found_helper (a_tl, a_pl, a_tv, a_pv) = ValueError msg
              \<and> Interp a_tl \<in> set msg \<and> Interp a_pl \<in> set msg \<and> Interp a_tv \<in> set msg
              \<and> Interp a_pv \<in> set msg)
       \<and> (\<forall>q. call_angles_to_image allclose
                  (snd (call_angles_to_image allclose self (a_tl, a_pl, a_tv, a_pv))) q
                = call_angles_to_image allclose self q)
       \<and> (\<forall>q. call_angles_to_image_helper allclose
                  (snd (call_angles_to_image_helper allclose self (a_tl, a_pl, a_tv, a_pv))) q
                = call_angles_to_image_helper allclose self q)"
proof -
  have "first_match allclose (items (angles_list self)) (a_tl, a_pl, a_tv, a_pv) 0 = None"
    using assms by (simp only: first_match_None_iff)
  then show ?thesis
    by (simp add: call_angles_to_image_def call_angles_to_image_helper_def angles_to_image_def
          angles_to_image_helper_def does_not_exist_def not_found_helper_def)
qed

text \<open>
  C5. In both variants the not-found error should carry the four queried values and the path
  of the archive. On the reader of the archive \<open>near.btf.npz\<close> and the query
  \<open>(999, 999, 999, 999)\<close>, which no row matches, \<open>btf_helper\<close> raises the error with the four
  values and the path, and \<open>btfnpz-helper\<close> raises an error with the four values whose message
  has no part for the path. Both leave the reader as it was.
\<close>

theorem C5_helper_error_omits_path:
  "Btfnpz_init ''near.btf.npz'' near_npz = Inr near_btfnpz
   \<and> npz_filepath near_btfnpz = ''near.btf.npz''
   \<and> call_angles_to_image np_allclose near_btfnpz (999, 999, 999, 999)
     = (Inl (ValueError [Lit ''condition ('', Interp 999, Lit '', '', Interp 999, Lit '', '', Interp 999,
                         Lit '', '', Interp 999, Lit ('') does not exist in '' @ [CHR 0x27]),
                         Interp_str ''near.btf.npz'', Lit (CHR 0x27 # ''.'')]), near_btfnpz)
   \<and> call_angles_to_image_helper np_allclose near_btfnpz (999, 999, 999, 999)
     = (Inl (ValueError [Lit ''tl:'', Interp 999, Lit '', pl:'', Interp 999, Lit '', tv:'', Interp 999,
                         Lit '', pv:'', Interp 999, Lit '' not found'']), near_btfnpz)
   \<and> Interp_str ''near.btf.npz''
       \<notin> set [Lit ''tl:'', Interp (999 :: rat), Lit '', pl:'', Interp 999, Lit '', tv:'', Interp 999,
               Lit '', pv:'', Interp 999, Lit '' not found'']"
  using near_btfnpz_constructed
  by (simp add: call_angles_to_image_def call_angles_to_image_helper_def angles_to_image_def
        angles_to_image_helper_def does_not_exist_def not_found_helper_def
        near_btfnpz_def isclose_def rtol_def atol_def)

subsection \<open>The packed reader: nothing is written\<close>

text \<open>
  C9. The constructor of the packed reader switches off the write flag of the image stack and
  of the angle table. No run of lookups, of either variant, changes the reader: the images,
  the angle table, \<open>angles_set\<close> and \<open>img_shape\<close> stay what the constructor made them, the
  flags included. An assignment into either array is refused, and so is one through an image
  that a lookup returned.
\<close>

theorem C9_reader_is_read_only:
  assumes "Btfnpz_init path loaded = (Inr self :: 'a error + ('px, 'a) btfnpz)"
  shows "\<not> writeable (image_list self) \<and> \<not> writeable (angles_list self)
       \<and> snd (run_lookups (call_angles_to_image allclose) self qs) = self
       \<and> snd (run_lookups (call_angles_to_image_helper allclose) self qs) = self
       \<and> setitem (image_list self) i x = (Inl read_only :: 'a error + 'px ndarray)
       \<and> setitem (angles_list self) j y = (Inl read_only :: 'a error + 'a angles ndarray)
       \<and> (angles_to_image allclose self a_tl a_pl a_tv a_pv = Inr v
            \<longrightarrow> view_assign v x = (Inl read_only :: 'a error + 'px view))
       \<and> (angles_to_image_helper allclose self a_tl a_pl a_tv a_pv = Inr v
            \<longrightarrow> view_assign v x = (Inl read_only :: 'a error + 'px view))"
proof -
  from assms have w: "\<not> writeable (image_list self)" "\<not> writeable (angles_list self)"
    by (auto simp: Btfnpz_init_def split: option.splits)
  have v: "view_assign v x = (Inl read_only :: 'a error + 'px view)"
    if "getitem (image_list self) n = (Inr v :: 'a error + 'px view)" for n
    using that w by (auto simp: getitem_def view_assign_def split: if_splits)
  have "view_assign v x = (Inl read_only :: 'a error + 'px view)"
    if "angles_to_image allclose self a_tl a_pl a_tv a_pv = Inr v"
    using that v by (auto simp: angles_to_image_def split: option.splits)
  moreover have "view_assign v x = (Inl read_only :: 'a error + 'px view)"
    if "angles_to_image_helper allclose self a_tl a_pl a_tv a_pv = Inr v"
    using that v by (auto simp: angles_to_image_helper_def split: option.splits)
  ultimately show ?thesis
    using w by (simp add: run_lookups_state setitem_def)
qed

theorem C9_reader_is_read_only_witness:
  "Btfnpz_init ''near.btf.npz'' near_npz = Inr near_btfnpz
   \<and> \<not> writeable (image_list near_btfnpz) \<and> \<not> writeable (angles_list near_btfnpz)
   \<and> snd (run_lookups (call_angles_to_image np_allclose) near_btfnpz [(300, 0, 0, 0), (1, 1, 1, 1)])
       = near_btfnpz
   \<and> setitem (image_list near_btfnpz) 0 ''other'' = (Inl read_only :: rat error + string ndarray)
   \<and> angles_to_image np_allclose near_btfnpz 300 0 0 0 = Inr first_view
   \<and> view_assign first_view ''other'' = (Inl read_only :: rat error + string view)"
proof -
  have l: "angles_to_image np_allclose near_btfnpz 300 0 0 0 = Inr first_view"
    by (simp add: angles_to_image_def near_btfnpz_def getitem_def first_view_def isclose_def
          rtol_def atol_def)
  show ?thesis
    using C9_reader_is_read_only [OF near_btfnpz_constructed,
        of np_allclose "[(300, 0, 0, 0), (1, 1, 1, 1)]" 0 "''other''" 0 "(0, 0, 0, 0)" 300 0 0 0 first_view]
      near_btfnpz_constructed l
    by simp
qed

subsection \<open>Keys, names and entries\<close>

lemma quantize_fixed_form:
  assumes "quantize q DECIMAL_PRECISION = (Inr q :: 'v error + decimal)"
  shows "q = NaN \<or> (\<exists>n. q = Finite n (- 3))"
proof (cases q)
  case (Finite m e)
  with assms have "quantize (Finite m e) (Finite 1 (- 3)) = (Inr q :: 'v error + decimal)"
    by (simp only: DECIMAL_PRECISION_def)
  from quantize_Finite_cases [OF this] show ?thesis by simp
qed (use assms in \<open>simp_all add: DECIMAL_PRECISION_def\<close>)

lemma dec_eq_fixed:
  assumes "dec_eq a b"
    and "quantize a DECIMAL_PRECISION = (Inr a :: 'v error + decimal)"
    and "quantize b DECIMAL_PRECISION = (Inr b :: 'v error + decimal)"
  shows "a = b"
  using assms(1) quantize_fixed_form [OF assms(2)] quantize_fixed_form [OF assms(3)] by auto

lemma lookup_key_fixedD:
  assumes "lookup_key a b c d = (Inr (a, b, c, d) :: 'v error + key)"
  shows "quantize a DECIMAL_PRECISION = (Inr a :: 'v error + decimal)"
    and "quantize b DECIMAL_PRECISION = (Inr b :: 'v error + decimal)"
    and "quantize c DECIMAL_PRECISION = (Inr c :: 'v error + decimal)"
    and "quantize d DECIMAL_PRECISION = (Inr d :: 'v error + decimal)"
  using assms by (auto simp: lookup_key_def bnd_eq_Inr)

lemma key_eq_fixed:
  assumes "key_eq (a, b, c, d) (a', b', c', d')"
    and "lookup_key a b c d = (Inr (a, b, c, d) :: 'v error + key)"
    and "lookup_key a' b' c' d' = (Inr (a', b', c', d') :: 'v error + key)"
  shows "(a, b, c, d) = (a', b', c', d')"
  using assms(1) lookup_key_fixedD [OF assms(2)] lookup_key_fixedD [OF assms(3)]
  by (auto intro: dec_eq_fixed)

lemma angle_field_fixed:
  assumes "angle_field angles i = (Inr q :: 'v error + decimal)"
  shows "quantize q DECIMAL_PRECISION = (Inr q :: 'v error + decimal)"
  using assms by (auto simp: angle_field_def bnd_eq_Inr split: if_splits intro: quantize_idem)

lemma except_ValueError_Inr: "except_ValueError angles body = Inr x \<Longrightarrow> body = Inr x"
  by (cases body) (auto simp: except_ValueError_def split: if_splits)

lemma filename_to_angles_fixed:
  assumes "filename_to_angles p (Some sep) = (Inr (a, b, c, d) :: 'v error + key)"
  shows "lookup_key a b c d = (Inr (a, b, c, d) :: 'v error + key)"
proof -
  from assms obtain angles where
    "bnd (angle_field angles 0) (\<lambda>a. bnd (angle_field angles 1) (\<lambda>b.
     bnd (angle_field angles 2) (\<lambda>c. bnd (angle_field angles 3) (\<lambda>d. Inr (a, b, c, d)))))
       = (Inr (a, b, c, d) :: 'v error + key)"
    by (auto simp: filename_to_angles_def Let_def bnd_eq_Inr dest: except_ValueError_Inr)
  then obtain i0 i1 i2 i3 where
    "angle_field angles i0 = (Inr a :: 'v error + decimal)"
    "angle_field angles i1 = (Inr b :: 'v error + decimal)"
    "angle_field angles i2 = (Inr c :: 'v error + decimal)"
    "angle_field angles i3 = (Inr d :: 'v error + decimal)"
    by (auto simp: bnd_eq_Inr)
  then show ?thesis
    by (simp add: lookup_key_def angle_field_fixed)
qed

lemma dict_set_names_parse:
  assumes "names_parse sep d" "filename_to_angles p (Some sep) = (Inr k :: key error + key)"
  shows "names_parse sep (dict_set d k p)"
  using assms
proof (induction d k p rule: dict_set.induct)
  case (1 k v)
  then show ?case by simp
next
  case (2 k' v' d k v)
  show ?case
  proof (cases "key_eq k' k")
    case True
    obtain a b c e where k: "k = (a, b, c, e)" by (cases k)
    obtain a' b' c' e' where k': "k' = (a', b', c', e')" by (cases k')
    from "2.prems"(1) have "filename_to_angles v' (Some sep) = (Inr k' :: key error + key)"
      by simp
    from filename_to_angles_fixed [OF this [unfolded k']]
      filename_to_angles_fixed [OF "2.prems"(2) [unfolded k]] True
    have "k' = k" unfolding k k' by (intro key_eq_fixed) auto
    with "2.prems" True show ?thesis by simp
  next
    case False
    with 2 show ?thesis by simp
  qed
qed

lemma dict_comprehension_names_parse:
  "dict_comprehension paths sep d = Inr d' \<Longrightarrow> names_parse sep d \<Longrightarrow> names_parse sep d'"
proof (induction paths arbitrary: d)
  case Nil
  then show ?case by simp
next
  case (Cons p ps)
  from Cons.prems(1) obtain k where k: "filename_to_angles p (Some sep) = (Inr k :: key error + key)"
    and r: "dict_comprehension ps sep (dict_set d k p) = Inr d'"
    by (auto simp: bnd_eq_Inr)
  from Cons.IH [OF r dict_set_names_parse [OF Cons.prems(2) k]] show ?case .
qed

lemma zip_read_in_archive:
  assumes "p \<in> fst ` set archive"
  shows "\<exists>data. (p, data) \<in> set archive \<and> zip_read archive p = (Inr data :: 'v error + 'b)"
proof -
  from assms have "p \<in> fst ` set (rev archive)" by simp
  then obtain data where m: "map_of (rev archive) p = Some data"
    by (metis domD dom_map_of_conv_image_fst)
  then have "(p, data) \<in> set archive" by (auto dest: map_of_SomeD)
  with m show ?thesis by (auto simp: zip_read_def)
qed

lemma Decimal_of_str_empty: "Decimal_of_str [] = (Inl InvalidOperation :: 'v error + decimal)"
  by (simp add: Decimal_of_str_def strip_def split_sign_def parse_number_def)

lemma filename_to_angles_empty_name:
  "filename_to_angles [] (Some sep) \<noteq> (Inr k :: 'v error + key)"
proof (cases "sep = []")
  case True
  then show ?thesis by (simp add: filename_to_angles_def py_split_def)
next
  case False
  then show ?thesis
    by (simp add: filename_to_angles_def py_split_def angle_field_def Decimal_of_str_empty
          except_ValueError_def)
qed

lemma np_allclose_refl: "np_allclose t t"
  by (cases t) (simp add: isclose_def rtol_def atol_def)

lemma dict_get_not_None: "(k', v) \<in> set d \<Longrightarrow> key_eq k' k \<Longrightarrow> dict_get d k \<noteq> None"
  unfolding dict_get_None_iff by force

lemma packed_lookup_listed:
  assumes init: "Btfnpz_init path loaded = (Inr self :: 'a error + ('px, 'a) btfnpz)"
    and t: "(t_tl, t_pl, t_tv, t_pv) \<in> angles_set self"
    and refl: "allclose (t_tl, t_pl, t_tv, t_pv) (t_tl, t_pl, t_tv, t_pv)"
    and len: "length (items (angles_list self)) \<le> length (items (image_list self))"
  shows "\<exists>i < length (items (angles_list self)).
           first_match allclose (items (angles_list self)) (t_tl, t_pl, t_tv, t_pv) 0 = Some i
           \<and> getitem (image_list self) i
               = (Inr \<lparr> view_data = items (image_list self) ! i, view_shape = img_shape self,
                        view_writeable = False \<rparr> :: 'a error + 'px view)"
proof -
  from init have s: "angles_set self = set (items (angles_list self))"
    and sh: "img_shape self = item_shape (image_list self)"
    and w: "\<not> writeable (image_list self)"
    by (auto simp: Btfnpz_init_def shape_def split: option.splits)
  from t refl s have "first_match allclose (items (angles_list self)) (t_tl, t_pl, t_tv, t_pv) 0 \<noteq> None"
    by (auto simp: first_match_None_iff)
  then obtain i where i: "first_match allclose (items (angles_list self)) (t_tl, t_pl, t_tv, t_pv) 0 = Some i"
    by auto
  then have "i < length (items (angles_list self))"
    by (simp add: first_match_Some_iff)
  with i len sh w show ?thesis
    by (auto simp: getitem_def)
qed

lemma zip_lookup_listed:
  assumes init: "Btfzip_init zpath archive paths file_ext angle_sep = (out, Inr zself)"
    and it: "iterates paths (filepath_set (map fst archive) file_ext)"
    and t: "(k_tl, k_pl, k_tv, k_pv) \<in> set (zip_angles_set zself)"
    and refl: "key_eq (k_tl, k_pl, k_tv, k_pv) (k_tl, k_pl, k_tv, k_pv)"
  shows "\<exists>p data. p \<in> set paths \<and> p \<noteq> []
           \<and> filename_to_angles p (Some angle_sep) = (Inr (k_tl, k_pl, k_tv, k_pv) :: key error + key)
           \<and> (p, data) \<in> set archive
           \<and> lookup_key k_tl k_pl k_tv k_pv = (Inr (k_tl, k_pl, k_tv, k_pv) :: key error + key)
           \<and> dict_get (angles_vs_filepath_dict zself) (k_tl, k_pl, k_tv, k_pv) = Some p
           \<and> zip_read (zip_archive zself) p = (Inr data :: key error + 'b)"
proof -
  let ?d = "angles_vs_filepath_dict zself"
  let ?k = "(k_tl, k_pl, k_tv, k_pv)"
  note i = Btfzip_init_Inr [OF init]
  have inv: "names_parse angle_sep ?d"
    using dict_comprehension_names_parse [OF i(1)] by simp
  have vals: "snd ` set ?d \<subseteq> set paths"
    using dict_comprehension_values [OF i(1)] by simp
  from t i(2) obtain p0 where p0: "(?k, p0) \<in> set ?d" by auto
  with inv have "filename_to_angles p0 (Some angle_sep) = (Inr ?k :: key error + key)" by auto
  from filename_to_angles_fixed [OF this]
  have fixed: "lookup_key k_tl k_pl k_tv k_pv = (Inr ?k :: key error + key)" .
  have "dict_get ?d ?k \<noteq> None"
    using p0 refl by (rule dict_get_not_None)
  then obtain p where p: "dict_get ?d ?k = Some p" by auto
  from dict_get_Some [OF p] obtain k' where k': "(k', p) \<in> set ?d" "key_eq k' ?k" by blast
  obtain a b c e where ke: "k' = (a, b, c, e)" by (cases k')
  from k'(1) inv have pk': "filename_to_angles p (Some angle_sep) = (Inr k' :: key error + key)" by auto
  from filename_to_angles_fixed [OF pk' [unfolded ke]] fixed k'(2)
  have "k' = ?k" unfolding ke by (intro key_eq_fixed) auto
  with pk' have parse: "filename_to_angles p (Some angle_sep) = (Inr ?k :: key error + key)" by simp
  from k'(1) vals have pin: "p \<in> set paths" by force
  with it have "p \<in> fst ` set archive"
    by (auto simp: iterates_def filepath_set_def)
  with zip_read_in_archive [of p archive] obtain data
    where "(p, data) \<in> set archive" "zip_read archive p = (Inr data :: key error + 'b)"
    by blast
  moreover have "p \<noteq> []"
    using parse filename_to_angles_empty_name [of angle_sep "(k_tl, k_pl, k_tv, k_pv)"] by auto
  ultimately show ?thesis
    using pin parse fixed p i(4) by auto
qed

subsection \<open>The filename reader: rounding and keys\<close>

lemma round_half_even_tie:
  assumes "0 \<le> c" "0 < d" "2 * \<bar>c - round_half_even c d * d\<bar> = d"
  shows "even (round_half_even c d)"
proof -
  have r: "0 \<le> c mod d" "c mod d < d" using assms by simp_all
  have a: "c - c div d * d = c mod d" by (simp add: minus_div_mult_eq_mod)
  have b: "c - (c div d + 1) * d = c mod d - d"
    by (simp add: algebra_simps minus_div_mult_eq_mod a [symmetric])
  show ?thesis
    using r assms(3) unfolding round_half_even_def Let_def
    by (auto simp: a b split: if_splits)
qed

lemma half_even_unique:
  fixes m n n' d :: int
  assumes d: "0 < d"
    and n: "2 * \<bar>m - n * d\<bar> \<le> d" "2 * \<bar>m - n * d\<bar> = d \<longrightarrow> even n"
    and n': "2 * \<bar>m - n' * d\<bar> \<le> d" "2 * \<bar>m - n' * d\<bar> = d \<longrightarrow> even n'"
  shows "n = n'"
proof (rule ccontr)
  assume ne: "n \<noteq> n'"
  have e1: "\<bar>n - n'\<bar> * d = \<bar>(n - n') * d\<bar>"
    using d by (simp add: abs_mult)
  have e2: "(n - n') * d = (m - n' * d) - (m - n * d)"
    by (simp add: algebra_simps)
  have "\<bar>(m - n' * d) - (m - n * d)\<bar> \<le> \<bar>m - n' * d\<bar> + \<bar>m - n * d\<bar>"
    by (rule abs_triangle_ineq4)
  with e1 e2 have le: "2 * (\<bar>n - n'\<bar> * d) \<le> 2 * \<bar>m - n' * d\<bar> + 2 * \<bar>m - n * d\<bar>"
    by simp
  with n(1) n'(1) have "2 * (\<bar>n - n'\<bar> * d) \<le> 2 * d" by linarith
  then have "\<bar>n - n'\<bar> * d \<le> 1 * d" by simp
  then have "\<bar>n - n'\<bar> \<le> 1" using d by (simp only: mult_le_cancel_right)
  with ne have one: "\<bar>n - n'\<bar> = 1" by linarith
  with le have "2 * d \<le> 2 * \<bar>m - n' * d\<bar> + 2 * \<bar>m - n * d\<bar>" by simp
  with n(1) n'(1) have "2 * \<bar>m - n * d\<bar> = d" "2 * \<bar>m - n' * d\<bar> = d" by linarith+
  with n(2) n'(2) have "even n" "even n'" by simp_all
  then have "even (n - n')" by simp
  with one show False by presburger
qed

lemma quantize_half_even:
  assumes "quantize (Finite m e) DECIMAL_PRECISION = (Inr q :: 'v error + decimal)"
  shows "\<exists>n. q = Finite n (- 3)
           \<and> (if - 3 \<le> e then n = m * 10 ^ nat (e + 3)
               else 2 * \<bar>m - n * 10 ^ nat (- 3 - e)\<bar> \<le> 10 ^ nat (- 3 - e)
                    \<and> (2 * \<bar>m - n * 10 ^ nat (- 3 - e)\<bar> = 10 ^ nat (- 3 - e) \<longrightarrow> even n))"
proof -
  have "quantize (Finite m e) (Finite 1 (- 3)) = (Inr q :: 'v error + decimal)"
    using assms by (simp only: DECIMAL_PRECISION_def)
  from quantize_Finite_cases [OF this]
  have q: "q = Finite (sgn m * rescale \<bar>m\<bar> e (- 3)) (- 3)" by simp
  show ?thesis
  proof (cases "- 3 \<le> e")
    case True
    have "sgn m * \<bar>m\<bar> = m" by (auto simp: sgn_if)
    then have "sgn m * (\<bar>m\<bar> * 10 ^ nat (e + 3)) = m * 10 ^ nat (e + 3)"
      by (simp only: mult.assoc [symmetric])
    with True have "sgn m * rescale \<bar>m\<bar> e (- 3) = m * 10 ^ nat (e + 3)"
      by (simp add: rescale_def)
    with q True show ?thesis by simp
  next
    case False
    define d :: int where "d = 10 ^ nat (- 3 - e)"
    define r where "r = round_half_even \<bar>m\<bar> d"
    have d: "0 < d" by (simp add: d_def)
    have res: "rescale \<bar>m\<bar> e (- 3) = r" using False by (simp add: rescale_def r_def d_def)
    have near: "2 * \<bar>\<bar>m\<bar> - r * d\<bar> \<le> d"
      using round_half_even_nearest [of "\<bar>m\<bar>" d] d by (simp add: r_def)
    have tie: "even r" if "2 * \<bar>\<bar>m\<bar> - r * d\<bar> = d"
      using round_half_even_tie [of "\<bar>m\<bar>" d] d that by (simp add: r_def)
    have "sgn m * \<bar>m\<bar> = m" by (auto simp: sgn_if)
    then have "m - sgn m * r * d = sgn m * (\<bar>m\<bar> - r * d)"
      by (simp add: algebra_simps)
    then have eq: "\<bar>m - sgn m * r * d\<bar> = \<bar>sgn m\<bar> * \<bar>\<bar>m\<bar> - r * d\<bar>"
      by (simp add: abs_mult)
    have "2 * \<bar>m - sgn m * r * d\<bar> \<le> d \<and> (2 * \<bar>m - sgn m * r * d\<bar> = d \<longrightarrow> even (sgn m * r))"
    proof (cases "m = 0")
      case True
      have "r = 0" using d by (simp add: r_def True round_half_even_def)
      with True d show ?thesis by simp
    next
      case nz: False
      then have "\<bar>sgn m\<bar> = 1" by (simp add: abs_sgn_eq)
      with eq have "\<bar>m - sgn m * r * d\<bar> = \<bar>\<bar>m\<bar> - r * d\<bar>" by simp
      with near tie show ?thesis by auto
    qed
    with q res False show ?thesis by (simp add: d_def)
  qed
qed

lemma lookup_key_fixed:
  assumes "lookup_key a b c d = (Inr (a', b', c', d') :: 'v error + key)"
  shows "lookup_key a' b' c' d' = (Inr (a', b', c', d') :: 'v error + key)"
  using assms by (auto simp: lookup_key_def bnd_eq_Inr intro: quantize_idem)

lemma equal_keys_same_tuple:
  assumes "lookup_key a b c d = (Inr k :: key error + key)"
    and "lookup_key a' b' c' d' = (Inr k' :: key error + key)"
    and "key_eq k k'"
  shows "k = k'"
proof -
  obtain k1 k2 k3 k4 where k: "k = (k1, k2, k3, k4)" by (cases k)
  obtain l1 l2 l3 l4 where k': "k' = (l1, l2, l3, l4)" by (cases k')
  from lookup_key_fixed [OF assms(1) [unfolded k]] lookup_key_fixed [OF assms(2) [unfolded k']] assms(3)
  show ?thesis unfolding k k' by (intro key_eq_fixed) auto
qed

lemma different_keys_different_entries:
  assumes init: "Btfzip_init path archive paths file_ext angle_sep = (out, Inr self)"
    and k: "lookup_key a b c d = (Inr k :: key error + key)"
    and k': "lookup_key a' b' c' d' = (Inr k' :: key error + key)"
    and ne: "\<not> key_eq k k'"
    and p: "dict_get (angles_vs_filepath_dict self) k = Some p"
    and p': "dict_get (angles_vs_filepath_dict self) k' = Some p'"
  shows "p \<noteq> p'"
proof
  assume same: "p = p'"
  let ?d = "angles_vs_filepath_dict self"
  have inv: "names_parse angle_sep ?d"
    using dict_comprehension_names_parse [OF Btfzip_init_Inr(1) [OF init]] by simp
  from dict_get_Some [OF p] obtain s where s: "(s, p) \<in> set ?d" "key_eq s k" by blast
  from dict_get_Some [OF p'] obtain s' where s': "(s', p') \<in> set ?d" "key_eq s' k'" by blast
  from s(1) inv have ps: "filename_to_angles p (Some angle_sep) = (Inr s :: key error + key)" by auto
  from s'(1) inv have ps': "filename_to_angles p' (Some angle_sep) = (Inr s' :: key error + key)" by auto
  from ps ps' same have ss: "s = s'" by simp
  obtain s1 s2 s3 s4 where se: "s = (s1, s2, s3, s4)" by (cases s)
  have sfix: "lookup_key s1 s2 s3 s4 = (Inr s :: key error + key)"
    using filename_to_angles_fixed [OF ps [unfolded se]] by (simp add: se)
  have "s = k" using equal_keys_same_tuple [OF sfix k s(2)] .
  moreover have "s = k'" using equal_keys_same_tuple [OF sfix k' s'(2) [folded ss]] .
  ultimately show False using s(2) ne by simp
qed

text \<open>
  C2, as the source has it. Quantizing to three decimals is idempotent. It rounds to the
  nearest multiple of 0.001 and, when the input lies exactly between two multiples, to the
  even one: the result of quantizing \<open>m * 10^e\<close> is the number itself when it has at most
  three decimals; otherwise it is at most half a thousandth away and even in its last
  digit when it is exactly half a thousandth away, and only one multiple is so. The keys of
  two lookups are equal exactly when they are the same tuple of rounded values; lookups whose
  inputs quantize to the same key return the same thing, and in a constructed reader lookups
  with different keys never find the same entry. The floats \<open>10.2501\<close> and \<open>10.2502\<close> both
  quantize to \<open>10.250\<close>; \<open>0.0625\<close> quantizes to \<open>0.062\<close> and \<open>0.1875\<close> to \<open>0.188\<close>.
\<close>

theorem C2_quantization_rounds_half_even:
  "(quantize x DECIMAL_PRECISION = (Inr q :: key error + decimal)
      \<longrightarrow> quantize q DECIMAL_PRECISION = (Inr q :: key error + decimal))
   \<and> (quantize (Finite m e) DECIMAL_PRECISION = (Inr q' :: key error + decimal)
      \<longrightarrow> (\<exists>n. q' = Finite n (- 3)
             \<and> (if - 3 \<le> e then n = m * 10 ^ nat (e + 3)
                 else 2 * \<bar>m - n * 10 ^ nat (- 3 - e)\<bar> \<le> 10 ^ nat (- 3 - e)
                      \<and> (2 * \<bar>m - n * 10 ^ nat (- 3 - e)\<bar> = 10 ^ nat (- 3 - e) \<longrightarrow> even n))))
   \<and> (0 < den \<and> 2 * \<bar>num - i * den\<bar> \<le> den \<and> (2 * \<bar>num - i * den\<bar> = den \<longrightarrow> even i)
        \<and> 2 * \<bar>num - j * den\<bar> \<le> den \<and> (2 * \<bar>num - j * den\<bar> = den \<longrightarrow> even j)
      \<longrightarrow> i = (j :: int))
   \<and> (lookup_key a b c d = (Inr k :: key error + key)
        \<and> lookup_key a' b' c' d' = (Inr k' :: key error + key) \<and> key_eq k k'
      \<longrightarrow> k = k')
   \<and> (lookup_key a b c d = (lookup_key a' b' c' d' :: key error + key)
      \<longrightarrow> zip_angles_to_image imdecode decode_jpeg self a b c d
            = zip_angles_to_image imdecode decode_jpeg self a' b' c' d')
   \<and> (Btfzip_init path archive paths file_ext angle_sep = (out, Inr reader)
        \<and> lookup_key u1 u2 u3 u4 = (Inr ku :: key error + key)
        \<and> lookup_key v1 v2 v3 v4 = (Inr kv :: key error + key)
        \<and> \<not> key_eq ku kv
        \<and> dict_get (angles_vs_filepath_dict reader) ku = Some p
        \<and> dict_get (angles_vs_filepath_dict reader) kv = Some p'
      \<longrightarrow> p \<noteq> p')
   \<and> quantize float_10_2501 DECIMAL_PRECISION = (Inr (Finite 10250 (- 3)) :: key error + decimal)
   \<and> quantize float_10_2502 DECIMAL_PRECISION = (Inr (Finite 10250 (- 3)) :: key error + decimal)
   \<and> quantize float_0_0625 DECIMAL_PRECISION = (Inr (Finite 62 (- 3)) :: key error + decimal)
   \<and> quantize float_0_1875 DECIMAL_PRECISION = (Inr (Finite 188 (- 3)) :: key error + decimal)"
proof (intro conjI impI)
  show "quantize float_10_2501 DECIMAL_PRECISION = (Inr (Finite 10250 (- 3)) :: key error + decimal)"
    by code_simp
  show "quantize float_10_2502 DECIMAL_PRECISION = (Inr (Finite 10250 (- 3)) :: key error + decimal)"
    by code_simp
  show "quantize float_0_0625 DECIMAL_PRECISION = (Inr (Finite 62 (- 3)) :: key error + decimal)"
    by code_simp
  show "quantize float_0_1875 DECIMAL_PRECISION = (Inr (Finite 188 (- 3)) :: key error + decimal)"
    by code_simp
next
  assume "0 < den \<and> 2 * \<bar>num - i * den\<bar> \<le> den \<and> (2 * \<bar>num - i * den\<bar> = den \<longrightarrow> even i)
        \<and> 2 * \<bar>num - j * den\<bar> \<le> den \<and> (2 * \<bar>num - j * den\<bar> = den \<longrightarrow> even j)"
  then show "i = j" using half_even_unique [of den num i j] by blast
next
  assume "lookup_key a b c d = (Inr k :: key error + key)
        \<and> lookup_key a' b' c' d' = (Inr k' :: key error + key) \<and> key_eq k k'"
  then show "k = k'" using equal_keys_same_tuple by blast
next
  assume "Btfzip_init path archive paths file_ext angle_sep = (out, Inr reader)
        \<and> lookup_key u1 u2 u3 u4 = (Inr ku :: key error + key)
        \<and> lookup_key v1 v2 v3 v4 = (Inr kv :: key error + key)
        \<and> \<not> key_eq ku kv
        \<and> dict_get (angles_vs_filepath_dict reader) ku = Some p
        \<and> dict_get (angles_vs_filepath_dict reader) kv = Some p'"
  then show "p \<noteq> p'"
    using different_keys_different_entries
      [of path archive paths file_ext angle_sep out reader u1 u2 u3 u4 ku v1 v2 v3 v4 kv p p']
    by blast
qed (fact quantize_idem quantize_half_even same_key_same_entry)+

theorem C2_quantization_rounds_half_even_witness:
  "quantize float_lo DECIMAL_PRECISION = (Inr (Finite 10250 (- 3)) :: key error + decimal)
   \<and> quantize (Finite 10250 (- 3)) DECIMAL_PRECISION = (Inr (Finite 10250 (- 3)) :: key error + decimal)
   \<and> quantize (Finite 625 (- 4)) DECIMAL_PRECISION = (Inr (Finite 62 (- 3)) :: key error + decimal)
   \<and> 2 * \<bar>625 - 62 * 10\<bar> = (10 :: int) \<and> even (62 :: int)
   \<and> key_eq (Finite 10250 (- 3), Finite 0 (- 3), Finite 0 (- 3), Finite 0 (- 3))
        (Finite 10250 (- 3), Finite 0 (- 3), Finite 0 (- 3), Finite 0 (- 3))
   \<and> lookup_key float_10_2501 (Finite 0 0) (Finite 0 0) (Finite 0 0)
       = (lookup_key float_10_2502 (Finite 0 0) (Finite 0 0) (Finite 0 0) :: key error + key)
   \<and> zip_angles_to_image Cv2_image Some rounding_btfzip
        float_10_2501 (Finite 0 0) (Finite 0 0) (Finite 0 0)
       = zip_angles_to_image Cv2_image Some rounding_btfzip
        float_10_2502 (Finite 0 0) (Finite 0 0) (Finite 0 0)
   \<and> Btfzip_init ''r.zip'' rounding_archive rounding_names ''.exr'' ''_'' = ([], Inr rounding_btfzip)
   \<and> dict_get (angles_vs_filepath_dict rounding_btfzip)
        (Finite 10250 (- 3), Finite 0 (- 3), Finite 0 (- 3), Finite 0 (- 3)) = Some ''tl10.25_pl0_tv0_pv0.exr''
   \<and> dict_get (angles_vs_filepath_dict rounding_btfzip)
        (Finite 10251 (- 3), Finite 0 (- 3), Finite 0 (- 3), Finite 0 (- 3)) = Some ''tl10.251_pl0_tv0_pv0.exr''
   \<and> ''tl10.25_pl0_tv0_pv0.exr'' \<noteq> ''tl10.251_pl0_tv0_pv0.exr''"
proof -
  let ?klo = "(Finite 10250 (- 3), Finite 0 (- 3), Finite 0 (- 3), Finite 0 (- 3))"
  let ?khi = "(Finite 10251 (- 3), Finite 0 (- 3), Finite 0 (- 3), Finite 0 (- 3))"
  have h1: "quantize float_lo DECIMAL_PRECISION = (Inr (Finite 10250 (- 3)) :: key error + decimal)"
    by code_simp
  have h2: "quantize (Finite 625 (- 4)) DECIMAL_PRECISION = (Inr (Finite 62 (- 3)) :: key error + decimal)"
    by code_simp
  have h3: "(0 :: int) < 10 \<and> 2 * \<bar>625 - 62 * 10\<bar> \<le> (10 :: int)
            \<and> (2 * \<bar>625 - 62 * 10\<bar> = (10 :: int) \<longrightarrow> even (62 :: int))"
    by simp
  have h4: "lookup_key float_10_2501 (Finite 0 0) (Finite 0 0) (Finite 0 0) = (Inr ?klo :: key error + key)"
    by code_simp
  have h5: "lookup_key float_10_2502 (Finite 0 0) (Finite 0 0) (Finite 0 0) = (Inr ?klo :: key error + key)"
    by code_simp
  have h6: "key_eq ?klo ?klo" by simp
  have h7: "lookup_key float_lo (Finite 0 0) (Finite 0 0) (Finite 0 0) = (Inr ?klo :: key error + key)"
    by code_simp
  have h8: "lookup_key float_hi (Finite 0 0) (Finite 0 0) (Finite 0 0) = (Inr ?khi :: key error + key)"
    by code_simp
  have h9: "\<not> key_eq ?klo ?khi" by simp
  have h10: "dict_get (angles_vs_filepath_dict rounding_btfzip) ?klo = Some ''tl10.25_pl0_tv0_pv0.exr''"
    by (simp add: rounding_btfzip_def)
  have h11: "dict_get (angles_vs_filepath_dict rounding_btfzip) ?khi = Some ''tl10.251_pl0_tv0_pv0.exr''"
    by (simp add: rounding_btfzip_def)
  note t = C2_quantization_rounds_half_even
    [where x = float_lo and q = "Finite 10250 (- 3)"
       and m = 625 and e = "- 4" and q' = "Finite 62 (- 3)"
       and den = 10 and num = 625 and i = 62 and j = 62
       and a = float_10_2501 and b = "Finite 0 0" and c = "Finite 0 0" and d = "Finite 0 0" and k = ?klo
       and a' = float_10_2502 and b' = "Finite 0 0" and c' = "Finite 0 0" and d' = "Finite 0 0" and k' = ?klo
       and imdecode = Cv2_image and decode_jpeg = Some and self = rounding_btfzip
       and path = "''r.zip''" and archive = rounding_archive and paths = rounding_names
       and file_ext = "''.exr''" and angle_sep = "''_''" and out = "[]" and reader = rounding_btfzip
       and ?u1.0 = float_lo and ?u2.0 = "Finite 0 0" and ?u3.0 = "Finite 0 0" and ?u4.0 = "Finite 0 0" and ku = ?klo
       and ?v1.0 = float_hi and ?v2.0 = "Finite 0 0" and ?v3.0 = "Finite 0 0" and ?v4.0 = "Finite 0 0" and kv = ?khi
       and p = "''tl10.25_pl0_tv0_pv0.exr''" and p' = "''tl10.251_pl0_tv0_pv0.exr''"]
  from t h1 have c1: "quantize (Finite 10250 (- 3)) DECIMAL_PRECISION = (Inr (Finite 10250 (- 3)) :: key error + decimal)"
    by blast
  from t h2 have c2: "\<exists>n. Finite 62 (- 3) = Finite n (- 3)
        \<and> 2 * \<bar>625 - n * 10 ^ nat (- 3 - - 4)\<bar> \<le> (10 :: int) ^ nat (- 3 - - 4)
        \<and> (2 * \<bar>625 - n * 10 ^ nat (- 3 - - 4)\<bar> = (10 :: int) ^ nat (- 3 - - 4) \<longrightarrow> even n)"
    by simp
  then have c2': "2 * \<bar>625 - 62 * 10\<bar> = (10 :: int) \<and> even (62 :: int)"
    by simp
  from h4 h5 have e: "lookup_key float_10_2501 (Finite 0 0) (Finite 0 0) (Finite 0 0)
       = (lookup_key float_10_2502 (Finite 0 0) (Finite 0 0) (Finite 0 0) :: key error + key)"
    by simp
  from t e have c3: "zip_angles_to_image Cv2_image Some rounding_btfzip
        float_10_2501 (Finite 0 0) (Finite 0 0) (Finite 0 0)
       = zip_angles_to_image Cv2_image Some rounding_btfzip
        float_10_2502 (Finite 0 0) (Finite 0 0) (Finite 0 0)"
    by blast
  from t rounding_btfzip_constructed h7 h8 h9 h10 h11
  have c4: "''tl10.25_pl0_tv0_pv0.exr'' \<noteq> ''tl10.251_pl0_tv0_pv0.exr''"
    by blast
  from t h3 have c5: "(62 :: int) = 62" by blast
  from t h4 h5 h6 have c6: "?klo = ?klo" by blast
  show ?thesis
    using h1 c1 h2 c2' h6 e c3 rounding_btfzip_constructed h10 h11 c4 c5 c6
    by (intro conjI) simp_all
qed


text \<open>
  C2, as the specification has it, says that any two inputs that differ only beyond the
  third decimal digit get the same key. The floats \<open>10.2501220703125\<close> and
  \<open>10.2508544921875\<close> agree up to the third decimal digit, yet they quantize to \<open>10.250\<close> and
  \<open>10.251\<close> and, in an archive with an entry for each, resolve to different entries.
\<close>

theorem C2_counterexample:
  "Btfzip_init ''r.zip'' rounding_archive rounding_names ''.exr'' ''_'' = ([], Inr rounding_btfzip)
   \<and> cut_after_3rd_decimal float_lo = cut_after_3rd_decimal float_hi
   \<and> quantize float_lo DECIMAL_PRECISION = (Inr (Finite 10250 (- 3)) :: key error + decimal)
   \<and> quantize float_hi DECIMAL_PRECISION = (Inr (Finite 10251 (- 3)) :: key error + decimal)
   \<and> zip_angles_to_image Cv2_image Some rounding_btfzip
        float_lo (Finite 0 0) (Finite 0 0) (Finite 0 0) = Inr (Some ''first'')
   \<and> zip_angles_to_image Cv2_image Some rounding_btfzip
        float_hi (Finite 0 0) (Finite 0 0) (Finite 0 0) = Inr (Some ''second'')"
  by code_simp

subsection \<open>Both readers: the lookup of a listed angle tuple\<close>

text \<open>
  C8, as the source has it. Packed reader: for a tuple \<open>t\<close> of \<open>angles_set\<close> that passes the
  tolerance test against itself, in a reader whose image stack has an image for every row of
  the angle table, the lookup of \<open>t\<close> returns an image, and the shape of that image is
  \<open>img_shape\<close>; so in both variants. Filename reader: for a tuple \<open>t\<close> of \<open>angles_set\<close> without
  a NaN, the lookup of \<open>t\<close> does not raise the not-found error: it reads an entry of the
  archive whose name parses to \<open>t\<close> and does what the decoder bound by the constructor does
  with the content of that entry, which is to return the decoded image when the decoder
  decodes the content, and otherwise to return \<open>None\<close> or to raise the decoder's error.
\<close>

theorem C8_lookup_of_listed_angles:
  "(Btfnpz_init path loaded = (Inr self :: 'a error + ('px, 'a) btfnpz)
      \<and> (t_tl, t_pl, t_tv, t_pv) \<in> angles_set self
      \<and> allclose (t_tl, t_pl, t_tv, t_pv) (t_tl, t_pl, t_tv, t_pv)
      \<and> length (items (angles_list self)) \<le> length (items (image_list self))
    \<longrightarrow> (\<exists>v. angles_to_image allclose self t_tl t_pl t_tv t_pv = Inr v \<and> view_shape v = img_shape self)
       \<and> (\<exists>v. angles_to_image_helper allclose self t_tl t_pl t_tv t_pv = Inr v
              \<and> view_shape v = img_shape self))
   \<and> (Btfzip_init zpath archive paths file_ext angle_sep = (out, Inr zself)
      \<and> iterates paths (filepath_set (map fst archive) file_ext)
      \<and> (k_tl, k_pl, k_tv, k_pv) \<in> set (zip_angles_set zself)
      \<and> key_eq (k_tl, k_pl, k_tv, k_pv) (k_tl, k_pl, k_tv, k_pv)
    \<longrightarrow> (\<exists>p data. p \<in> set paths
           \<and> filename_to_angles p (Some angle_sep) = (Inr (k_tl, k_pl, k_tv, k_pv) :: key error + key)
           \<and> (p, data) \<in> set archive
           \<and> zip_angles_to_image imdecode decode_jpeg zself k_tl k_pl k_tv k_pv
               = (case angles_to_image_method zself of
                    Cv2 \<Rightarrow>
                      (case imdecode data of
                         Cv2_error \<Rightarrow> Inl DecodeError
                       | Cv2_None \<Rightarrow> Inr None
                       | Cv2_image img \<Rightarrow> Inr (Some img))
                  | Simplejpeg \<Rightarrow>
                      (case decode_jpeg data of None \<Rightarrow> Inl DecodeError | Some img \<Rightarrow> Inr (Some img)))
           \<and> (\<forall>img. imdecode data = Cv2_image img \<and> decode_jpeg data = Some img
                 \<longrightarrow> zip_angles_to_image imdecode decode_jpeg zself k_tl k_pl k_tv k_pv
                       = Inr (Some img))))"
proof (intro conjI impI)
  assume a: "Btfnpz_init path loaded = (Inr self :: 'a error + ('px, 'a) btfnpz)
      \<and> (t_tl, t_pl, t_tv, t_pv) \<in> angles_set self
      \<and> allclose (t_tl, t_pl, t_tv, t_pv) (t_tl, t_pl, t_tv, t_pv)
      \<and> length (items (angles_list self)) \<le> length (items (image_list self))"
  from packed_lookup_listed [of path loaded self t_tl t_pl t_tv t_pv allclose] a
  obtain i where
    "first_match allclose (items (angles_list self)) (t_tl, t_pl, t_tv, t_pv) 0 = Some i"
    "getitem (image_list self) i
       = (Inr \<lparr> view_data = items (image_list self) ! i, view_shape = img_shape self,
                view_writeable = False \<rparr> :: 'a error + 'px view)"
    by blast
  then show "\<exists>v. angles_to_image allclose self t_tl t_pl t_tv t_pv = Inr v \<and> view_shape v = img_shape self"
    and "\<exists>v. angles_to_image_helper allclose self t_tl t_pl t_tv t_pv = Inr v \<and> view_shape v = img_shape self"
    by (simp_all add: angles_to_image_def angles_to_image_helper_def)
next
  assume a: "Btfzip_init zpath archive paths file_ext angle_sep = (out, Inr zself)
      \<and> iterates paths (filepath_set (map fst archive) file_ext)
      \<and> (k_tl, k_pl, k_tv, k_pv) \<in> set (zip_angles_set zself)
      \<and> key_eq (k_tl, k_pl, k_tv, k_pv) (k_tl, k_pl, k_tv, k_pv)"
  from zip_lookup_listed [of zpath archive paths file_ext angle_sep out zself k_tl k_pl k_tv k_pv] a
  obtain p data where pd: "p \<in> set paths" "p \<noteq> []"
    "filename_to_angles p (Some angle_sep) = (Inr (k_tl, k_pl, k_tv, k_pv) :: key error + key)"
    "(p, data) \<in> set archive"
    "lookup_key k_tl k_pl k_tv k_pv = (Inr (k_tl, k_pl, k_tv, k_pv) :: key error + key)"
    "dict_get (angles_vs_filepath_dict zself) (k_tl, k_pl, k_tv, k_pv) = Some p"
    "zip_read (zip_archive zself) p = (Inr data :: key error + 'b)"
    by blast
  have r: "zip_angles_to_image imdecode decode_jpeg zself k_tl k_pl k_tv k_pv
               = (case angles_to_image_method zself of
                    Cv2 \<Rightarrow>
                      (case imdecode data of
                         Cv2_error \<Rightarrow> Inl DecodeError
                       | Cv2_None \<Rightarrow> Inr None
                       | Cv2_image img \<Rightarrow> Inr (Some img))
                  | Simplejpeg \<Rightarrow>
                      (case decode_jpeg data of None \<Rightarrow> Inl DecodeError | Some img \<Rightarrow> Inr (Some img)))"
    using pd by (simp add: zip_angles_to_image_def angles_to_image_cv2_def angles_to_image_simplejpeg_def
          split: decoder.splits cv2_result.splits)
  have "\<forall>img. imdecode data = Cv2_image img \<and> decode_jpeg data = Some img
                 \<longrightarrow> zip_angles_to_image imdecode decode_jpeg zself k_tl k_pl k_tv k_pv
                       = Inr (Some img)"
    by (simp add: r split: decoder.splits)
  with pd r show "\<exists>p data. p \<in> set paths
           \<and> filename_to_angles p (Some angle_sep) = (Inr (k_tl, k_pl, k_tv, k_pv) :: key error + key)
           \<and> (p, data) \<in> set archive
           \<and> zip_angles_to_image imdecode decode_jpeg zself k_tl k_pl k_tv k_pv
               = (case angles_to_image_method zself of
                    Cv2 \<Rightarrow>
                      (case imdecode data of
                         Cv2_error \<Rightarrow> Inl DecodeError
                       | Cv2_None \<Rightarrow> Inr None
                       | Cv2_image img \<Rightarrow> Inr (Some img))
                  | Simplejpeg \<Rightarrow>
                      (case decode_jpeg data of None \<Rightarrow> Inl DecodeError | Some img \<Rightarrow> Inr (Some img)))
           \<and> (\<forall>img. imdecode data = Cv2_image img \<and> decode_jpeg data = Some img
                 \<longrightarrow> zip_angles_to_image imdecode decode_jpeg zself k_tl k_pl k_tv k_pv
                       = Inr (Some img))"
    by blast
qed

theorem C8_lookup_of_listed_angles_witness:
  "Btfnpz_init ''near.btf.npz'' near_npz = Inr near_btfnpz
   \<and> (300, 0, 0, 0) \<in> angles_set near_btfnpz
   \<and> np_allclose (300, 0, 0, 0) (300, 0, 0, 0)
   \<and> (\<exists>v. angles_to_image np_allclose near_btfnpz 300 0 0 0 = Inr v \<and> view_shape v = [2, 2, 3])
   \<and> Btfzip_init ''a.zip'' example_archive example_names ''.exr'' ''_'' = ([], Inr example_btfzip)
   \<and> iterates example_names (filepath_set (map fst example_archive) ''.exr'')
   \<and> key45 \<in> set (zip_angles_set example_btfzip)
   \<and> key_eq key45 key45
   \<and> (\<exists>p data. p \<in> set example_names
         \<and> filename_to_angles p (Some ''_'') = (Inr key45 :: key error + key)
         \<and> (p, data) \<in> set example_archive
         \<and> zip_angles_to_image Cv2_image Some example_btfzip
              (Finite 45000 (- 3)) (Finite 255000 (- 3)) (Finite 0 (- 3)) (Finite 0 (- 3))
             = Inr (Some data))"
proof -
  have n1: "(300, 0, 0, 0) \<in> angles_set near_btfnpz" by (simp add: near_btfnpz_def)
  have n2: "np_allclose (300, 0, 0, 0) (300, 0, 0, 0)" by (simp add: isclose_def rtol_def atol_def)
  have n3: "length (items (angles_list near_btfnpz)) \<le> length (items (image_list near_btfnpz))"
    by (simp add: near_btfnpz_def)
  have n4: "img_shape near_btfnpz = [2, 2, 3]" by (simp add: near_btfnpz_def)
  have z1: "iterates example_names (filepath_set (map fst example_archive) ''.exr'')" by code_simp
  have z2: "(Finite 45000 (- 3), Finite 255000 (- 3), Finite 0 (- 3), Finite 0 (- 3))
              \<in> set (zip_angles_set example_btfzip)"
    by (simp add: example_btfzip_def)
  have z3: "key_eq (Finite 45000 (- 3), Finite 255000 (- 3), Finite 0 (- 3), Finite 0 (- 3))
              (Finite 45000 (- 3), Finite 255000 (- 3), Finite 0 (- 3), Finite 0 (- 3))"
    by simp
  have z4: "angles_to_image_method example_btfzip = Cv2" by (simp add: example_btfzip_def)
  note t = C8_lookup_of_listed_angles
    [of "''near.btf.npz''" near_npz near_btfnpz 300 0 0 0 np_allclose
        "''a.zip''" example_archive example_names "''.exr''" "''_''" "[]" example_btfzip
        "Finite 45000 (- 3)" "Finite 255000 (- 3)" "Finite 0 (- 3)" "Finite 0 (- 3)" Cv2_image Some]
  from t near_btfnpz_constructed n1 n2 n3 n4
  have p: "\<exists>v. angles_to_image np_allclose near_btfnpz 300 0 0 0 = Inr v \<and> view_shape v = [2, 2, 3]"
    by simp
  from t example_btfzip_constructed z1 z2 z3
  have "\<exists>p data. p \<in> set example_names
         \<and> filename_to_angles p (Some ''_'')
             = (Inr (Finite 45000 (- 3), Finite 255000 (- 3), Finite 0 (- 3), Finite 0 (- 3)) :: key error + key)
         \<and> (p, data) \<in> set example_archive
         \<and> zip_angles_to_image Cv2_image Some example_btfzip
              (Finite 45000 (- 3)) (Finite 255000 (- 3)) (Finite 0 (- 3)) (Finite 0 (- 3))
             = (case angles_to_image_method example_btfzip of
                  Cv2 \<Rightarrow>
                    (case Cv2_image data of
                       Cv2_error \<Rightarrow> Inl DecodeError
                     | Cv2_None \<Rightarrow> Inr None
                     | Cv2_image img \<Rightarrow> Inr (Some img))
                | Simplejpeg \<Rightarrow> (case Some data of None \<Rightarrow> Inl DecodeError | Some img \<Rightarrow> Inr (Some img)))"
    by blast
  then have q: "\<exists>p data. p \<in> set example_names
         \<and> filename_to_angles p (Some ''_'') = (Inr key45 :: key error + key)
         \<and> (p, data) \<in> set example_archive
         \<and> zip_angles_to_image Cv2_image Some example_btfzip
              (Finite 45000 (- 3)) (Finite 255000 (- 3)) (Finite 0 (- 3)) (Finite 0 (- 3))
             = Inr (Some data)"
    by (simp add: z4 key45_def)
  have z2': "key45 \<in> set (zip_angles_set example_btfzip)" using z2 by (simp add: key45_def)
  have z3': "key_eq key45 key45" by (simp add: key45_def)
  show ?thesis
    using p q near_btfnpz_constructed n1 n2 example_btfzip_constructed z1 z2' z3'
    by (intro conjI)
qed

text \<open>
  C8, as the specification has it, promises an image of the declared shape, or a non-empty
  decoded array, for every tuple of \<open>angles_set\<close> of every constructed reader. The constructor
  of the packed reader accepts an archive with two angle rows and one image, and the lookup of
  the second row raises \<open>IndexError\<close>. The constructor of the filename reader accepts the name
  \<open>tlNaN_pl0_tv0_pv0.exr\<close>, and the lookup of the tuple it lists raises the not-found error,
  since a NaN equals nothing. And where \<open>cv2.imdecode\<close> returns \<open>None\<close> for the content of an
  entry, so does the lookup.
\<close>

theorem C8_counterexample:
  "Btfnpz_init ''short.btf.npz'' short_npz = Inr short_btfnpz
   \<and> (10, 0, 0, 0) \<in> angles_set short_btfnpz
   \<and> angles_to_image np_allclose short_btfnpz 10 0 0 0 = Inl IndexError
   \<and> angles_to_image_helper np_allclose short_btfnpz 10 0 0 0 = Inl IndexError
   \<and> iterates nan_names (filepath_set (map fst nan_archive) ''.exr'')
   \<and> Btfzip_init ''n.zip'' nan_archive nan_names ''.exr'' ''_'' = ([], Inr nan_btfzip)
   \<and> (NaN, Finite 0 (- 3), Finite 0 (- 3), Finite 0 (- 3)) \<in> set (zip_angles_set nan_btfzip)
   \<and> zip_angles_to_image Cv2_image Some nan_btfzip NaN (Finite 0 (- 3)) (Finite 0 (- 3)) (Finite 0 (- 3))
       = Inl (not_found (NaN, Finite 0 (- 3), Finite 0 (- 3), Finite 0 (- 3)) ''n.zip'')
   \<and> key45 \<in> set (zip_angles_set example_btfzip)
   \<and> zip_angles_to_image imdecode_no_image Some example_btfzip
        (Finite 45000 (- 3)) (Finite 255000 (- 3)) (Finite 0 (- 3)) (Finite 0 (- 3)) = Inr None"
proof (intro conjI)
  show "Btfnpz_init ''short.btf.npz'' short_npz = Inr short_btfnpz"
    by (simp add: Btfnpz_init_def short_npz_def short_btfnpz_def shape_def)
  show "(10, 0, 0, 0) \<in> angles_set short_btfnpz"
    by (simp add: short_btfnpz_def)
  show "angles_to_image np_allclose short_btfnpz 10 0 0 0 = Inl IndexError"
    by (simp add: angles_to_image_def short_btfnpz_def getitem_def isclose_def rtol_def atol_def)
  show "angles_to_image_helper np_allclose short_btfnpz 10 0 0 0 = Inl IndexError"
    by (simp add: angles_to_image_helper_def short_btfnpz_def getitem_def isclose_def rtol_def atol_def)
  show "iterates nan_names (filepath_set (map fst nan_archive) ''.exr'')"
    by code_simp
  show "Btfzip_init ''n.zip'' nan_archive nan_names ''.exr'' ''_'' = ([], Inr nan_btfzip)"
    by code_simp
  show "(NaN, Finite 0 (- 3), Finite 0 (- 3), Finite 0 (- 3)) \<in> set (zip_angles_set nan_btfzip)"
    by (simp add: nan_btfzip_def)
  show "zip_angles_to_image Cv2_image Some nan_btfzip NaN (Finite 0 (- 3)) (Finite 0 (- 3)) (Finite 0 (- 3))
       = Inl (not_found (NaN, Finite 0 (- 3), Finite 0 (- 3), Finite 0 (- 3)) ''n.zip'')"
    by code_simp
  show "key45 \<in> set (zip_angles_set example_btfzip)"
    by (simp add: key45_def example_btfzip_def)
  show "zip_angles_to_image imdecode_no_image Some example_btfzip
        (Finite 45000 (- 3)) (Finite 255000 (- 3)) (Finite 0 (- 3)) (Finite 0 (- 3)) = Inr None"
    by code_simp
qed

end
